theory Spec2Isabelle
  imports Main "HOL-Library.Word" "HOL-Library.Log_Nat"
begin

section \<open>The driver of the Fixed Time Quantum benchmark (ftq.c)\<close>

text \<open>
  This theory embeds \<^verbatim>\<open>main\<close> of \<^verbatim>\<open>ftq.c\<close>: option handling, the sanity check on the
  sample count, the allocation of the sample buffer, the check of the output mode, the
  calibration, the launch of the measurement (threaded or inline) and the report.

  The process is a state transformer. The state holds the globals of \<^verbatim>\<open>ftq.h\<close>, the
  locals of \<^verbatim>\<open>main\<close>, the list of externally visible actions performed so far (the
  trace) and, once the process has ended, how it ended. Everything \<^verbatim>\<open>main\<close> obtains from
  outside (the C library, the OS layer, the measurement core) is read from an
  environment record.
\<close>

subsection \<open>C scalar types\<close>

text \<open>
  \<^verbatim>\<open>unsigned long long\<close> and, on the LP64 targets of the program, \<^verbatim>\<open>unsigned long\<close> and
  \<^verbatim>\<open>size_t\<close> are 64-bit words. The typedef of \<^verbatim>\<open>ticks\<close> is in an OS header that is not
  part of the sources at hand; it is taken to be \<^verbatim>\<open>unsigned long long\<close>, the element type
  of the sample buffer it is read from. \<^verbatim>\<open>int\<close> values are mathematical integers, kept in
  range where they enter (\<open>atoi\<close>).
\<close>

type_synonym ull = "64 word"
type_synonym ulong = "64 word"
type_synonym ticks = "64 word"

definition INT_MIN :: int where "INT_MIN = - 2147483648"
definition INT_MAX :: int where "INT_MAX = 2147483647"

text \<open>\<^verbatim>\<open>#define MAX_SAMPLES 2000000\<close>\<close>

definition MAX_SAMPLES :: int where "MAX_SAMPLES = 2000000"

subsection \<open>Binary floating point\<close>

text \<open>
  A floating-point datum is a rational, an infinity or a NaN. The two zeros are one
  value: every zero the program divides by is a converted integer, hence \<open>+0\<close>.
  \<open>rnd p emin emax\<close> rounds a rational to the nearest value of the binary format with
  \<open>p\<close> significand bits and exponent range \<open>emin..emax\<close>, ties to even, overflowing to an
  infinity: \<^verbatim>\<open>double\<close> is \<open>rnd 53 (-1022) 1023\<close>, \<^verbatim>\<open>float\<close> is \<open>rnd 24 (-126) 127\<close>.
\<close>

datatype fl = Fin rat | PInf | NInf | NaN

definition pow2 :: "int \<Rightarrow> rat" where
  "pow2 e = (if 0 \<le> e then 2 ^ nat e else 1 / 2 ^ nat (- e))"

text \<open>\<open>flog2 x\<close> is \<open>\<lfloor>log\<^sub>2 x\<rfloor>\<close> for a positive rational \<open>x\<close>.\<close>

definition flog2 :: "rat \<Rightarrow> int" where
  "flog2 x = (if 1 \<le> x then int (floorlog 2 (nat \<lfloor>x\<rfloor>)) - 1
              else - int (floorlog 2 (nat (\<lceil>1 / x\<rceil> - 1))))"

text \<open>Round to the nearest integer, ties to even.\<close>

definition rne :: "rat \<Rightarrow> int" where
  "rne x = (let f = \<lfloor>x\<rfloor>; r = x - of_int f
            in if r < 1 / 2 then f else if 1 / 2 < r then f + 1
               else if even f then f else f + 1)"

definition rnd :: "nat \<Rightarrow> int \<Rightarrow> int \<Rightarrow> rat \<Rightarrow> fl" where
  "rnd p emin emax x =
     (if x = 0 then Fin 0
      else let e = max (flog2 \<bar>x\<bar>) emin;
               u = pow2 (e - (int p - 1));
               y = of_int (rne (x / u)) * u
           in if pow2 (emax + 1) \<le> \<bar>y\<bar> then (if 0 < x then PInf else NInf) else Fin y)"

definition rnd_double :: "rat \<Rightarrow> fl" where
  "rnd_double = rnd 53 (- 1022) 1023"

definition rnd_float :: "rat \<Rightarrow> fl" where
  "rnd_float = rnd 24 (- 126) 127"

text \<open>Conversions from integer types to \<^verbatim>\<open>double\<close> and \<^verbatim>\<open>float\<close>.\<close>

definition double_of_int :: "int \<Rightarrow> fl" where
  "double_of_int i = rnd_double (of_int i)"

definition double_of_ull :: "ull \<Rightarrow> fl" where
  "double_of_ull w = rnd_double (of_int (uint w))"

definition float_of_ull :: "ull \<Rightarrow> fl" where
  "float_of_ull w = rnd_float (of_int (uint w))"

text \<open>The assignment of a \<^verbatim>\<open>double\<close> to a \<^verbatim>\<open>float\<close> variable.\<close>

fun float_of_double :: "fl \<Rightarrow> fl" where
  "float_of_double (Fin x) = rnd_float x"
| "float_of_double v = v"

text \<open>
  Division and multiplication, with the rounding of the format they are carried out in.
  A finite nonzero value divided by zero is an infinity, \<open>0 / 0\<close> is a NaN: IEEE
  division does not trap.
\<close>

fun fl_div :: "(rat \<Rightarrow> fl) \<Rightarrow> fl \<Rightarrow> fl \<Rightarrow> fl" where
  "fl_div r (Fin a) (Fin b) =
     (if b = 0 then (if a = 0 then NaN else if 0 < a then PInf else NInf) else r (a / b))"
| "fl_div r (Fin a) PInf = Fin 0"
| "fl_div r (Fin a) NInf = Fin 0"
| "fl_div r PInf (Fin b) = (if 0 \<le> b then PInf else NInf)"
| "fl_div r NInf (Fin b) = (if 0 \<le> b then NInf else PInf)"
| "fl_div r _ _ = NaN"

fun fl_mul :: "(rat \<Rightarrow> fl) \<Rightarrow> fl \<Rightarrow> fl \<Rightarrow> fl" where
  "fl_mul r (Fin a) (Fin b) = r (a * b)"
| "fl_mul r (Fin a) PInf = (if a = 0 then NaN else if 0 < a then PInf else NInf)"
| "fl_mul r (Fin a) NInf = (if a = 0 then NaN else if 0 < a then NInf else PInf)"
| "fl_mul r PInf (Fin b) = (if b = 0 then NaN else if 0 < b then PInf else NInf)"
| "fl_mul r NInf (Fin b) = (if b = 0 then NaN else if 0 < b then NInf else PInf)"
| "fl_mul r PInf PInf = PInf"
| "fl_mul r PInf NInf = NInf"
| "fl_mul r NInf PInf = NInf"
| "fl_mul r NInf NInf = PInf"
| "fl_mul r _ _ = NaN"

text \<open>
  The cast of a floating value to \<^verbatim>\<open>unsigned long long\<close> discards the fraction. When the
  integral part is not a value of the type (also for an infinity or a NaN) the cast has
  no defined result: \<open>None\<close>.
\<close>

definition trunc :: "rat \<Rightarrow> int" where
  "trunc x = (if 0 \<le> x then \<lfloor>x\<rfloor> else \<lceil>x\<rceil>)"

fun fl_to_ull :: "fl \<Rightarrow> ull option" where
  "fl_to_ull (Fin x) =
     (let t = trunc x in if 0 \<le> t \<and> t < 2 ^ 64 then Some (word_of_int t) else None)"
| "fl_to_ull _ = None"

subsection \<open>\<open>atoi\<close>\<close>

text \<open>
  \<open>atoi\<close> skips white space, reads an optional sign and the longest run of decimal
  digits, and ignores the rest; with no digit the value is 0. A value outside \<^verbatim>\<open>int\<close> has
  no defined result.
\<close>

definition isspace :: "char \<Rightarrow> bool" where
  "isspace c = (of_char c \<in> {32, 9, 10, 11, 12, 13 :: nat})"

definition isdigit :: "char \<Rightarrow> bool" where
  "isdigit c = (48 \<le> (of_char c :: nat) \<and> (of_char c :: nat) \<le> 57)"

fun digits :: "int \<Rightarrow> string \<Rightarrow> int" where
  "digits acc [] = acc"
| "digits acc (c # cs) =
     (if isdigit c then digits (10 * acc + (int (of_char c) - 48)) cs else acc)"

definition atoi_value :: "string \<Rightarrow> int" where
  "atoi_value s =
     (case dropWhile isspace s of
        [] \<Rightarrow> 0
      | c # cs \<Rightarrow>
          if c = CHR ''-'' then - digits 0 cs
          else if c = CHR ''+'' then digits 0 cs
          else digits 0 (c # cs))"

definition atoi :: "string \<Rightarrow> int option" where
  "atoi s = (let v = atoi_value s in if INT_MIN \<le> v \<and> v \<le> INT_MAX then Some v else None)"

subsection \<open>Actions, outcomes, state and environment\<close>

datatype dest = Stdout | File nat

text \<open>
  One event per externally visible action of \<^verbatim>\<open>main\<close>, in program order. \<open>Read_start\<close>,
  \<open>Read_cyclestart\<close>, \<open>Read_cycleend\<close> and \<open>Read_end\<close> are the four clock readings
  \<^verbatim>\<open>start = nsec()\<close>, \<^verbatim>\<open>cyclestart = getticks()\<close>, \<^verbatim>\<open>cycleend = getticks()\<close> and
  \<^verbatim>\<open>end = nsec()\<close>; \<open>Write_hounds v\<close> is the assignment \<^verbatim>\<open>hounds = v\<close>; \<open>Ftq_core c\<close> is the
  inline call \<^verbatim>\<open>ftq_core(c)\<close>, from call to return; \<open>Line d e c\<close> is one sample line
  \<^verbatim>\<open>"%lld %lld\n"\<close> written to \<open>d\<close>.
\<close>

datatype event =
    Usage
  | Warn_max_samples
  | Mmap ulong
  | Perror_mmap
  | Malloc_samples ulong
  | Memset_samples ulong
  | Err_stdout
  | Compute_ticksperns
  | Threadinit int
  | Err_threadinit
  | Malloc_threads
  | Memset_threads
  | Read_start
  | Read_cyclestart
  | Pthread_create nat
  | Err_create
  | Write_hounds int
  | Pthread_join nat
  | Err_join
  | Ftq_core nat
  | Read_cycleend
  | Read_end
  | Stats
  | Fopen string nat
  | Perror_fopen
  | Header dest nat
  | Line dest ull ull
  | Fclose nat

datatype assertion = Samples_allocated | Threadinit_ok

datatype undefined_behaviour =
    Null_optarg
  | Atoi_out_of_range
  | Outname_overflow
  | Float_to_integer
  | Null_threads
  | Read_out_of_bounds

datatype outcome =
    Exit_success
  | Exit_failure
  | Assert_abort assertion
  | Pthread_exit
  | Undefined undefined_behaviour

record state =
  interval :: ull
  numsamples :: ulong
  hounds :: int
  ignore_wire_failures :: int
  set_realtime :: int
  ticksperns :: fl
  test_argument :: "string option"
  outname :: string
  numthreads :: int
  use_threads :: int
  use_stdout :: int
  samples_size :: ulong
  start :: ticks
  end_ns :: ticks
  cyclestart :: ticks
  cycleend :: ticks
  nspercycle :: fl
  trace :: "event list"
  halt :: "outcome option"

text \<open>
  What the environment answers. \<open>nsec k\<close> and \<open>getticks k\<close> are the results of the
  \<open>k\<close>-th call (from 0) of the clock and of the cycle counter; \<open>measured k\<close> is
  \<^verbatim>\<open>samples[k]\<close> as the measurement core has left it; \<open>undefined_cast x\<close> is what the
  compiled program delivers for the cast to \<^verbatim>\<open>unsigned long long\<close> of a floating value \<open>x\<close>
  that has no value of that type.
\<close>

record env =
  mmap_ok :: bool
  malloc_ok :: bool
  sscanf_lg :: "string \<Rightarrow> fl option"
  undefined_cast :: "fl \<Rightarrow> ull"
  compute_ticksperns :: fl
  threadinit :: "int \<Rightarrow> int"
  threads_malloc_ok :: bool
  pthread_create :: "nat \<Rightarrow> int"
  pthread_join :: "nat \<Rightarrow> int"
  nsec :: "nat \<Rightarrow> ticks"
  getticks :: "nat \<Rightarrow> ticks"
  measured :: "nat \<Rightarrow> ull"
  fopen_ok :: "nat \<Rightarrow> bool"

text \<open>
  The globals \<^verbatim>\<open>interval\<close>, \<^verbatim>\<open>numsamples\<close>, \<^verbatim>\<open>hounds\<close>, \<^verbatim>\<open>ticksperns\<close> and \<^verbatim>\<open>test_argument\<close>
  are only declared in \<^verbatim>\<open>ftq.h\<close>; the file that defines them is not among the sources.
  Their values at process start are parameters.
\<close>

record startup =
  interval0 :: ull
  numsamples0 :: ulong
  hounds0 :: int
  ticksperns0 :: fl
  test_argument0 :: "string option"

text \<open>
  The state on entry to the option loop: the initialisers of \<^verbatim>\<open>ftq.c\<close>
  (\<^verbatim>\<open>ignore_wire_failures = 0\<close>, \<^verbatim>\<open>set_realtime = 0\<close>, \<^verbatim>\<open>numthreads = 1\<close>, \<^verbatim>\<open>use_threads = 0\<close>,
  \<^verbatim>\<open>use_stdout = 0\<close>, \<^verbatim>\<open>sprintf(outname, "ftq")\<close>). The locals without initialiser are
  written before they are read; they start at an arbitrary value, here 0.
\<close>

definition init :: "startup \<Rightarrow> state" where
  "init d = \<lparr>interval = interval0 d, numsamples = numsamples0 d, hounds = hounds0 d,
     ignore_wire_failures = 0, set_realtime = 0, ticksperns = ticksperns0 d,
     test_argument = test_argument0 d, outname = ''ftq'', numthreads = 1, use_threads = 0,
     use_stdout = 0, samples_size = 0, start = 0, end_ns = 0, cyclestart = 0,
     cycleend = 0, nspercycle = Fin 0, trace = [], halt = None\<rparr>"

definition emit :: "event \<Rightarrow> state \<Rightarrow> state" where
  "emit e s = s\<lparr>trace := trace s @ [e]\<rparr>"

definition stop :: "outcome \<Rightarrow> state \<Rightarrow> state" where
  "stop oc s = s\<lparr>halt := Some oc\<rparr>"

text \<open>A statement is not executed once the process has ended.\<close>

definition guard :: "(state \<Rightarrow> state) \<Rightarrow> state \<Rightarrow> state" where
  "guard f s = (if halt s = None then f s else s)"

text \<open>
  \<^verbatim>\<open>for (i = 0; i < n; i++) body\<close>, as the run of \<open>body\<close> over \<open>[0..<n]\<close> that stops when
  the body ends the process.
\<close>

fun for_each :: "(nat \<Rightarrow> state \<Rightarrow> state) \<Rightarrow> nat list \<Rightarrow> state \<Rightarrow> state" where
  "for_each body [] s = s"
| "for_each body (i # is) s = (if halt s = None then for_each body is (body i s) else s)"

subsection \<open>The option loop\<close>

text \<open>
  \<^verbatim>\<open>getopt_long\<close> is the C library's; the model starts from what it returns, call by call:
  the option character and \<^verbatim>\<open>optarg\<close>. The long options of the table are all declared
  without argument, so \<^verbatim>\<open>--numsamples\<close> and the like arrive with a null \<^verbatim>\<open>optarg\<close> (\<open>None\<close>);
  any character not in the \<^verbatim>\<open>switch\<close> (also \<open>?\<close>) takes the \<^verbatim>\<open>default\<close> branch.
\<close>

definition usage :: "state \<Rightarrow> state" where
  "usage s = stop Exit_failure (emit Usage s)"

definition with_optarg :: "string option \<Rightarrow> (string \<Rightarrow> state \<Rightarrow> state) \<Rightarrow> state \<Rightarrow> state" where
  "with_optarg arg f s =
     (case arg of None \<Rightarrow> stop (Undefined Null_optarg) s | Some a \<Rightarrow> f a s)"

definition with_atoi :: "string \<Rightarrow> (int \<Rightarrow> state \<Rightarrow> state) \<Rightarrow> state \<Rightarrow> state" where
  "with_atoi a f s =
     (case atoi a of None \<Rightarrow> stop (Undefined Atoi_out_of_range) s | Some v \<Rightarrow> f v s)"

text \<open>
  \<^verbatim>\<open>interval = (unsigned long long) (1e9 / atoi(optarg));\<close> The statement has no test and no
  exit: the quotient is formed, cast and stored, whatever \<open>atoi\<close> returned. Where the quotient
  has no value of the type (the infinity of a zero divisor, a quotient of \<open>-1\<close> or less) ISO C
  leaves the result of the cast open; the program stores what the conversion delivers, the
  environment's \<open>undefined_cast\<close>, and goes on.
\<close>

definition frequency_quotient :: "int \<Rightarrow> fl" where
  "frequency_quotient v = fl_div rnd_double (Fin 1000000000) (double_of_int v)"

definition cast_to_ull :: "env \<Rightarrow> fl \<Rightarrow> ull" where
  "cast_to_ull en x = (case fl_to_ull x of None \<Rightarrow> undefined_cast en x | Some w \<Rightarrow> w)"

definition set_interval :: "env \<Rightarrow> int \<Rightarrow> state \<Rightarrow> state" where
  "set_interval en v s = s\<lparr>interval := cast_to_ull en (frequency_quotient v)\<rparr>"

definition handle_option :: "env \<Rightarrow> char \<times> string option \<Rightarrow> state \<Rightarrow> state" where
  "handle_option en opt s =
     (let c = fst opt; arg = snd opt in
      if c = CHR ''t'' then
        with_optarg arg (\<lambda>a. with_atoi a (\<lambda>v s. s\<lparr>numthreads := v, use_threads := 1\<rparr>)) s
      else if c = CHR ''s'' then s\<lparr>use_stdout := 1\<rparr>
      else if c = CHR ''o'' then
        with_optarg arg (\<lambda>a s. if length a < 255 then s\<lparr>outname := a\<rparr>
                               else stop (Undefined Outname_overflow) s) s
      else if c = CHR ''f'' then with_optarg arg (\<lambda>a. with_atoi a (set_interval en)) s
      else if c = CHR ''n'' then
        with_optarg arg (\<lambda>a. with_atoi a (\<lambda>v s. s\<lparr>numsamples := word_of_int v\<rparr>)) s
      else if c = CHR ''w'' then s\<lparr>ignore_wire_failures := ignore_wire_failures s + 1\<rparr>
      else if c = CHR ''T'' then
        with_optarg arg (\<lambda>a s. case sscanf_lg en a of None \<Rightarrow> s
                                                   | Some x \<Rightarrow> s\<lparr>ticksperns := x\<rparr>) s
      else if c = CHR ''r'' then s\<lparr>set_realtime := 1\<rparr>
      else if c = CHR ''a'' then s\<lparr>test_argument := arg\<rparr>
      else usage s)"

fun parse_options :: "env \<Rightarrow> (char \<times> string option) list \<Rightarrow> state \<Rightarrow> state" where
  "parse_options en [] s = s"
| "parse_options en (opt # opts) s =
     (if halt s = None then parse_options en opts (handle_option en opt s) else s)"

subsection \<open>Sanity check and allocation of the sample buffer\<close>

text \<open>
  \<^verbatim>\<open>if (numsamples > MAX_SAMPLES) { ...; numsamples = MAX_SAMPLES; }\<close>: the comparison is
  made in \<^verbatim>\<open>unsigned long\<close>.
\<close>

definition sanity_check :: "state \<Rightarrow> state" where
  "sanity_check s =
     (if word_of_int MAX_SAMPLES < numsamples s
      then (emit Warn_max_samples s)\<lparr>numsamples := word_of_int MAX_SAMPLES\<rparr>
      else s)"

text \<open>
  \<^verbatim>\<open>samples_size = sizeof(unsigned long long) * numsamples * 2 * numthreads\<close>, in \<^verbatim>\<open>size_t\<close>;
  then \<^verbatim>\<open>mmap\<close>, on failure \<^verbatim>\<open>perror\<close>, \<^verbatim>\<open>malloc\<close> and \<^verbatim>\<open>assert(samples)\<close>; then \<^verbatim>\<open>memset\<close>.
\<close>

definition allocate :: "env \<Rightarrow> state \<Rightarrow> state" where
  "allocate en s =
     (let sz = 8 * numsamples s * 2 * word_of_int (numthreads s);
          s1 = emit (Mmap sz) (s\<lparr>samples_size := sz\<rparr>)
      in if mmap_ok en then emit (Memset_samples sz) s1
         else let s2 = emit (Malloc_samples sz) (emit Perror_mmap s1)
              in if malloc_ok en then emit (Memset_samples sz) s2
                 else stop (Assert_abort Samples_allocated) s2)"

definition stdout_check :: "state \<Rightarrow> state" where
  "stdout_check s =
     (if use_stdout s = 1 \<and> 1 < numthreads s then stop Exit_failure (emit Err_stdout s)
      else s)"

text \<open>\<^verbatim>\<open>if (ticksperns == 0.0) ticksperns = compute_ticksperns();\<close>\<close>

definition calibrate :: "env \<Rightarrow> state \<Rightarrow> state" where
  "calibrate en s =
     (if ticksperns s = Fin 0
      then (emit Compute_ticksperns s)\<lparr>ticksperns := compute_ticksperns en\<rparr>
      else s)"

subsection \<open>Launch of the measurement\<close>

definition create_thread :: "env \<Rightarrow> nat \<Rightarrow> state \<Rightarrow> state" where
  "create_thread en i s =
     (let s1 = emit (Pthread_create i) s
      in if pthread_create en i \<noteq> 0 then stop Exit_failure (emit Err_create s1) else s1)"

definition join_thread :: "env \<Rightarrow> nat \<Rightarrow> state \<Rightarrow> state" where
  "join_thread en i s =
     (let s1 = emit (Pthread_join i) s
      in if pthread_join en i \<noteq> 0 then stop Exit_failure (emit Err_join s1) else s1)"

definition read_start :: "env \<Rightarrow> state \<Rightarrow> state" where
  "read_start en s =
     emit Read_cyclestart ((emit Read_start (s\<lparr>start := nsec en 0\<rparr>))\<lparr>cyclestart := getticks en 0\<rparr>)"

definition read_end :: "env \<Rightarrow> state \<Rightarrow> state" where
  "read_end en s =
     emit Read_end ((emit Read_cycleend (s\<lparr>cycleend := getticks en 1\<rparr>))\<lparr>end_ns := nsec en 1\<rparr>)"

definition release_hounds :: "state \<Rightarrow> state" where
  "release_hounds s = emit (Write_hounds 1) (s\<lparr>hounds := 1\<rparr>)"

text \<open>
  The branch \<^verbatim>\<open>use_threads == 1\<close>. \<^verbatim>\<open>memset(threads, ...)\<close> comes before
  \<^verbatim>\<open>assert(threads != NULL)\<close>, so a failed \<^verbatim>\<open>malloc\<close> is a write through a null pointer.
\<close>

definition threaded :: "env \<Rightarrow> state \<Rightarrow> state" where
  "threaded en s =
     (let s0 = emit (Threadinit (numthreads s)) s
      in if threadinit en (numthreads s) < 0
      then stop (Assert_abort Threadinit_ok) (emit Err_threadinit s0)
      else let s1 = emit Malloc_threads s0
           in if \<not> threads_malloc_ok en then stop (Undefined Null_threads) s1
              else let s2 = read_start en (emit Memset_threads s1);
                       s3 = for_each (create_thread en) [0..<nat (numthreads s)] s2;
                       s4 = guard release_hounds s3;
                       s5 = guard (for_each (join_thread en) [0..<nat (numthreads s)]) s4
                   in guard (read_end en) s5)"

text \<open>The branch \<^verbatim>\<open>else\<close>: the measurement core is called by \<^verbatim>\<open>main\<close> itself.\<close>

definition sequential :: "env \<Rightarrow> state \<Rightarrow> state" where
  "sequential en s = read_end en (emit (Ftq_core 0) (read_start en (release_hounds s)))"

definition coordinate :: "env \<Rightarrow> state \<Rightarrow> state" where
  "coordinate en s = (if use_threads s = 1 then threaded en s else sequential en s)"

subsection \<open>The report\<close>

text \<open>
  A read of \<^verbatim>\<open>samples[k]\<close>: defined inside the \<open>samples_size\<close> bytes of the buffer.
\<close>

definition sample_at :: "env \<Rightarrow> state \<Rightarrow> nat \<Rightarrow> ull option" where
  "sample_at en s k = (if 8 * (k + 1) \<le> unat (samples_size s) then Some (measured en k) else None)"

text \<open>
  \<^verbatim>\<open>nspercycle = (1.0 * ns) / cycles\<close> with \<^verbatim>\<open>ns = end - start\<close> and
  \<^verbatim>\<open>cycles = cycleend - cyclestart\<close>: a \<^verbatim>\<open>double\<close> division (the product with \<open>1.0\<close> is
  exact), stored in a \<^verbatim>\<open>float\<close>.
\<close>

definition ns_per_cycle :: "ticks \<Rightarrow> ticks \<Rightarrow> fl" where
  "ns_per_cycle ns cycles =
     float_of_double (fl_div rnd_double (double_of_ull ns) (double_of_ull cycles))"

text \<open>
  \<^verbatim>\<open>(ticks) (nspercycle * (samples[k] - base))\<close>: the difference is taken in
  \<^verbatim>\<open>unsigned long long\<close>, converted to \<^verbatim>\<open>float\<close>, multiplied in \<^verbatim>\<open>float\<close> and cast back.
\<close>

definition elapsed_ns :: "fl \<Rightarrow> ull \<Rightarrow> ull \<Rightarrow> ull option" where
  "elapsed_ns npc ts base = fl_to_ull (fl_mul rnd_float npc (float_of_ull (ts - base)))"

text \<open>
  One \<^verbatim>\<open>fprintf\<close> of the sample loops: \<open>k\<close> is the index of the time stamp, \<open>k + 1\<close> the
  index of the count, as the index expressions compute them.
\<close>

definition print_line :: "env \<Rightarrow> dest \<Rightarrow> ull \<Rightarrow> ulong \<Rightarrow> state \<Rightarrow> state" where
  "print_line en d base k s =
     (case sample_at en s (unat k) of
        None \<Rightarrow> stop (Undefined Read_out_of_bounds) s
      | Some ts \<Rightarrow>
          (case elapsed_ns (nspercycle s) ts base of
             None \<Rightarrow> stop (Undefined Float_to_integer) s
           | Some e \<Rightarrow>
               (case sample_at en s (unat (k + 1)) of
                  None \<Rightarrow> stop (Undefined Read_out_of_bounds) s
                | Some c \<Rightarrow> emit (Line d e c) s)))"

text \<open>
  \<^verbatim>\<open>for (i = 0, base = samples[b]; i < numsamples; i++) fprintf(...)\<close>, where \<open>idx i\<close> is
  the index expression of the time stamp of sample \<open>i\<close>.
\<close>

definition print_samples :: "env \<Rightarrow> dest \<Rightarrow> ulong \<Rightarrow> (nat \<Rightarrow> ulong) \<Rightarrow> state \<Rightarrow> state" where
  "print_samples en d b idx s =
     (case sample_at en s (unat b) of
        None \<Rightarrow> stop (Undefined Read_out_of_bounds) s
      | Some base \<Rightarrow>
          for_each (\<lambda>i. print_line en d base (idx i)) [0..<unat (numsamples s)] s)"

text \<open>
  The index expressions. With \<^verbatim>\<open>stdout\<close>: \<^verbatim>\<open>samples[i * 2]\<close> and \<^verbatim>\<open>samples[i * 2 + 1]\<close>, base
  \<^verbatim>\<open>samples[0]\<close>; the arithmetic is in \<^verbatim>\<open>int\<close> and, with \<open>i\<close> below the capped sample count,
  far from overflow. Per file: \<^verbatim>\<open>samples[j * numsamples * 2 + i * 2]\<close> and
  \<^verbatim>\<open>samples[j * numsamples * 2 + i * 2 + 1]\<close>, base \<^verbatim>\<open>samples[numsamples * j * 2]\<close>, computed in
  \<^verbatim>\<open>unsigned long\<close>.
\<close>

definition stdout_index :: "nat \<Rightarrow> ulong" where
  "stdout_index i = of_nat (i * 2)"

definition file_base :: "ulong \<Rightarrow> nat \<Rightarrow> ulong" where
  "file_base n j = n * of_nat j * 2"

definition file_index :: "ulong \<Rightarrow> nat \<Rightarrow> nat \<Rightarrow> ulong" where
  "file_index n j i = of_nat j * n * 2 + of_nat (i * 2)"

definition report_file :: "env \<Rightarrow> nat \<Rightarrow> state \<Rightarrow> state" where
  "report_file en j s =
     (let s1 = emit (Fopen (outname s) j) s
      in if \<not> fopen_ok en j then stop Exit_failure (emit Perror_fopen s1)
         else let s2 = print_samples en (File j) (file_base (numsamples s) j)
                         (file_index (numsamples s) j) (emit (Header (File j) j) s1)
              in guard (emit (Fclose j)) s2)"

definition report :: "env \<Rightarrow> state \<Rightarrow> state" where
  "report en s =
     (let s1 = (emit Stats s)\<lparr>nspercycle :=
                 ns_per_cycle (end_ns s - start s) (cycleend s - cyclestart s)\<rparr>
      in if use_stdout s = 1
         then print_samples en Stdout 0 stdout_index (emit (Header Stdout 0) s1)
         else for_each (report_file en) [0..<nat (numthreads s)] s1)"

text \<open>\<^verbatim>\<open>if (use_threads) pthread_exit(NULL); exit(EXIT_SUCCESS);\<close>\<close>

definition finish :: "state \<Rightarrow> state" where
  "finish s = (if use_threads s \<noteq> 0 then stop Pthread_exit s else stop Exit_success s)"

subsection \<open>\<open>main\<close>\<close>

definition after_options :: "env \<Rightarrow> startup \<Rightarrow> (char \<times> string option) list \<Rightarrow> state" where
  "after_options en d opts = parse_options en opts (init d)"

text \<open>Everything up to the launch: sanity check, allocation, output mode, calibration.\<close>

definition before_launch :: "env \<Rightarrow> startup \<Rightarrow> (char \<times> string option) list \<Rightarrow> state" where
  "before_launch en d opts =
     guard (calibrate en)
       (guard stdout_check
          (guard (allocate en)
             (guard sanity_check (after_options en d opts))))"

definition main :: "env \<Rightarrow> startup \<Rightarrow> (char \<times> string option) list \<Rightarrow> state" where
  "main en d opts = guard finish (guard (report en) (guard (coordinate en) (before_launch en d opts)))"

section \<open>Vocabulary of the proofs\<close>

text \<open>
  The part of the state that is fixed once the launch begins: no statement after the
  calibration assigns to these variables.
\<close>

definition params :: "state \<Rightarrow> ull \<times> ulong \<times> int \<times> int \<times> int \<times> int \<times> fl \<times> ulong \<times> string" where
  "params s = (interval s, numsamples s, numthreads s, use_threads s, use_stdout s,
     ignore_wire_failures s, ticksperns s, samples_size s, outname s)"

text \<open>
  Every action belongs to one phase of \<^verbatim>\<open>main\<close>: the option loop, the preparation (sanity
  check, allocation, output-mode check, calibration), the launch of the measurement, the
  report. \<open>adds A s s'\<close> says that \<open>s'\<close> has the trace of \<open>s\<close> followed by actions of \<open>A\<close>
  only.
\<close>

datatype phase = Options | Prepare | Launch | Report

fun phase_of :: "event \<Rightarrow> phase" where
  "phase_of Usage = Options"
| "phase_of Warn_max_samples = Prepare"
| "phase_of (Mmap sz) = Prepare"
| "phase_of Perror_mmap = Prepare"
| "phase_of (Malloc_samples sz) = Prepare"
| "phase_of (Memset_samples sz) = Prepare"
| "phase_of Err_stdout = Prepare"
| "phase_of Compute_ticksperns = Prepare"
| "phase_of Stats = Report"
| "phase_of (Fopen nm j) = Report"
| "phase_of Perror_fopen = Report"
| "phase_of (Header d j) = Report"
| "phase_of (Line d e c) = Report"
| "phase_of (Fclose j) = Report"
| "phase_of _ = Launch"

definition adds :: "event set \<Rightarrow> state \<Rightarrow> state \<Rightarrow> bool" where
  "adds A s s' \<longleftrightarrow> (\<exists>es. trace s' = trace s @ es \<and> set es \<subseteq> A)"

definition during :: "phase \<Rightarrow> event set" where
  "during p = {e. phase_of e = p}"

text \<open>
  \<open>ends H s s'\<close> says that a step from a running state \<open>s\<close> to \<open>s'\<close> either keeps the
  process running or ends it with an outcome of \<open>H\<close>.
\<close>

definition ends :: "outcome set \<Rightarrow> state \<Rightarrow> state \<Rightarrow> bool" where
  "ends H s s' \<longleftrightarrow> (halt s = None \<longrightarrow> halt s' \<in> insert None (Some ` H))"

text \<open>The size that \<open>allocate\<close> computes in state \<open>s\<close>.\<close>

definition alloc_size :: "state \<Rightarrow> ulong" where
  "alloc_size s = 8 * numsamples s * 2 * word_of_int (numthreads s)"

text \<open>The state on entry to the calibration.\<close>

definition before_calibration :: "env \<Rightarrow> startup \<Rightarrow> (char \<times> string option) list \<Rightarrow> state" where
  "before_calibration en d opts =
     guard stdout_check (guard (allocate en) (guard sanity_check (after_options en d opts)))"

text \<open>The common shape of \<open>create_thread\<close> and \<open>join_thread\<close>.\<close>

definition attempt :: "(nat \<Rightarrow> event) \<Rightarrow> event \<Rightarrow> (nat \<Rightarrow> int) \<Rightarrow> nat \<Rightarrow> state \<Rightarrow> state" where
  "attempt ev err rc i s =
     (let s1 = emit (ev i) s in if rc i \<noteq> 0 then stop Exit_failure (emit err s1) else s1)"

text \<open>The actions of the threaded launch up to the creation of the threads.\<close>

definition launch_head :: "int \<Rightarrow> event list" where
  "launch_head nt = [Threadinit nt, Malloc_threads, Memset_threads, Read_start, Read_cyclestart]"

text \<open>
  The actions of a threaded launch that fails before it sets \<^verbatim>\<open>hounds\<close>: those of the launch
  other than the release, the joins, the inline call and the end readings.
\<close>

definition before_release :: "event set" where
  "before_release = {e. phase_of e = Launch \<and> e \<noteq> Read_cycleend \<and> e \<noteq> Read_end
                        \<and> (\<forall>v. e \<noteq> Write_hounds v) \<and> (\<forall>i. e \<noteq> Pthread_join i) \<and> e \<noteq> Err_join
                        \<and> (\<forall>c. e \<noteq> Ftq_core c)}"

text \<open>
  \<open>creates_ok en nt\<close>: with \<open>nt\<close> threads requested, \<^verbatim>\<open>threadinit\<close>, the allocation of the thread
  array and every \<^verbatim>\<open>pthread_create\<close> succeed. \<open>joins_ok en nt\<close>: every \<^verbatim>\<open>pthread_join\<close> succeeds.
\<close>

definition creates_ok :: "env \<Rightarrow> int \<Rightarrow> bool" where
  "creates_ok en nt \<longleftrightarrow>
     0 \<le> threadinit en nt \<and> threads_malloc_ok en \<and> (\<forall>i\<in>set [0..<nat nt]. pthread_create en i = 0)"

definition joins_ok :: "env \<Rightarrow> int \<Rightarrow> bool" where
  "joins_ok en nt \<longleftrightarrow> (\<forall>i\<in>set [0..<nat nt]. pthread_join en i = 0)"

text \<open>
  The actions of the launch in a trace, in order, and the state in which the launch leaves
  the run.
\<close>

definition launch_part :: "event list \<Rightarrow> event list" where
  "launch_part t = filter (\<lambda>e. phase_of e = Launch) t"

definition launched :: "env \<Rightarrow> startup \<Rightarrow> (char \<times> string option) list \<Rightarrow> state" where
  "launched en d opts = guard (coordinate en) (before_launch en d opts)"

text \<open>The launch reaches the assignment \<^verbatim>\<open>hounds = 1\<close>.\<close>

definition releases :: "env \<Rightarrow> startup \<Rightarrow> (char \<times> string option) list \<Rightarrow> bool" where
  "releases en d opts \<longleftrightarrow>
     halt (before_launch en d opts) = None
     \<and> (use_threads (before_launch en d opts) = 1
          \<longrightarrow> creates_ok en (numthreads (before_launch en d opts)))"

text \<open>
  The trace of a launch that sets \<^verbatim>\<open>hounds\<close>: \<open>a\<close> before the assignment, \<open>b\<close> after it.
\<close>

definition release_shape ::
  "env \<Rightarrow> startup \<Rightarrow> (char \<times> string option) list \<Rightarrow> event list \<Rightarrow> event list \<Rightarrow> bool" where
  "release_shape en d opts a b \<longleftrightarrow>
     trace (launched en d opts) = trace (before_launch en d opts) @ a @ Write_hounds 1 # b
     \<and> set a \<subseteq> during Launch \<and> set b \<subseteq> during Launch
     \<and> (\<forall>v. Write_hounds v \<notin> set a \<and> Write_hounds v \<notin> set b)
     \<and> (\<forall>i. Pthread_create i \<notin> set b)
     \<and> (use_threads (before_launch en d opts) = 1 \<longrightarrow>
          a = launch_head (numthreads (before_launch en d opts))
              @ map Pthread_create [0..<nat (numthreads (before_launch en d opts))])
     \<and> (halt (launched en d opts) = None \<longrightarrow>
          (if use_threads (before_launch en d opts) = 1
           then b = map Pthread_join [0..<nat (numthreads (before_launch en d opts))]
                    @ [Read_cycleend, Read_end]
           else a = [] \<and> b = [Read_start, Read_cyclestart, Ftq_core 0, Read_cycleend, Read_end]))
     \<and> (halt (launched en d opts) \<noteq> None \<longrightarrow> Read_end \<notin> set b)"

text \<open>
  The sample lines that the loop over \<open>i < n\<close> can write to \<open>d\<close>, with the time stamp of
  sample \<open>i\<close> at index \<open>idx i\<close> and the base at index \<open>b\<close>.
\<close>

definition lines_of :: "env \<Rightarrow> fl \<Rightarrow> dest \<Rightarrow> ulong \<Rightarrow> (nat \<Rightarrow> ulong) \<Rightarrow> nat \<Rightarrow> event set" where
  "lines_of en npc d b idx n =
     {ev. \<exists>e c i. ev = Line d e c \<and> i < n
        \<and> elapsed_ns npc (measured en (unat (idx i))) (measured en (unat b)) = Some e
        \<and> c = measured en (unat (idx i + 1))}"

text \<open>The actions other than sample lines, and the sample lines of the file of thread \<open>j\<close>.\<close>

definition not_line :: "event set" where
  "not_line = {ev. \<forall>d e c. ev \<noteq> Line d e c}"

definition file_lines :: "env \<Rightarrow> fl \<Rightarrow> ulong \<Rightarrow> nat \<Rightarrow> event set" where
  "file_lines en npc n j =
     lines_of en npc (File j) (file_base n j) (file_index n j) (unat n)"

text \<open>The sample lines of a whole report.\<close>

definition report_lines :: "env \<Rightarrow> fl \<Rightarrow> ulong \<Rightarrow> int \<Rightarrow> int \<Rightarrow> event set" where
  "report_lines en npc n nt so =
     (if so = 1 then lines_of en npc Stdout 0 stdout_index (unat n)
      else (\<Union>j\<in>set [0..<nat nt]. file_lines en npc n j))"

text \<open>The two start readings.\<close>

definition starts :: "state \<Rightarrow> ticks \<times> ticks" where
  "starts s = (start s, cyclestart s)"

subsection \<open>An environment and start-up values for the examples\<close>

text \<open>
  In the examples every external call succeeds, the clock advances by 2000 ns and the
  cycle counter by 1000 ticks between their two readings, the sample buffer holds the
  time stamps 500, 600, 700, ... at the even indices and the counts 7, 9, 11, ... at the
  odd ones, \<open>sscanf\<close> converts strings of decimal digits, a cast without defined result
  delivers 0, and the globals start at the defaults of \<^verbatim>\<open>ftq.h\<close> (\<^verbatim>\<open>DEFAULT_INTERVAL\<close>, \<^verbatim>\<open>DEFAULT_COUNT\<close>), with \<^verbatim>\<open>hounds\<close> and
  \<^verbatim>\<open>ticksperns\<close> zero.
\<close>

definition sscanf_digits :: "string \<Rightarrow> fl option" where
  "sscanf_digits a =
     (if a \<noteq> [] \<and> list_all isdigit a then Some (rnd_double (of_int (digits 0 a))) else None)"

definition env0 :: env where
  "env0 = \<lparr>mmap_ok = True, malloc_ok = True, sscanf_lg = sscanf_digits,
     undefined_cast = (\<lambda>x. 0), compute_ticksperns = Fin (5 / 2), threadinit = (\<lambda>n. 0),
     threads_malloc_ok = True,
     pthread_create = (\<lambda>i. 0), pthread_join = (\<lambda>i. 0),
     nsec = (\<lambda>k. 1000 + 2000 * of_nat k), getticks = (\<lambda>k. 5 + 1000 * of_nat k),
     measured = (\<lambda>k. if even k then of_nat (500 + 50 * k) else of_nat (6 + k)),
     fopen_ok = (\<lambda>j. True)\<rparr>"

definition startup0 :: startup where
  "startup0 = \<lparr>interval0 = 100000, numsamples0 = 524288, hounds0 = 0, ticksperns0 = Fin 0,
     test_argument0 = None\<rparr>"


text \<open>The same environment, except that the second \<^verbatim>\<open>pthread_create\<close> fails (with \<^verbatim>\<open>EAGAIN\<close>).\<close>

definition env_create_fails :: env where
  "env_create_fails = env0\<lparr>pthread_create := (\<lambda>i. if i = 1 then 11 else 0)\<rparr>"

subsection \<open>The elapsed time as the specification words it\<close>

text \<open>
  The specification gives the first number of a sample line as
  \<^verbatim>\<open>(timestamp - first_timestamp) * nanoseconds_per_tick\<close>, with \<^verbatim>\<open>nanoseconds_per_tick\<close>
  derived from the calibration factor \<^verbatim>\<open>ticks_per_ns\<close>, that is its reciprocal. This is
  that number, in exact arithmetic, as an integer.
\<close>

definition spec_elapsed_ns :: "fl \<Rightarrow> ull \<Rightarrow> ull \<Rightarrow> int option" where
  "spec_elapsed_ns tpn ts first =
     (case tpn of
        Fin q \<Rightarrow> if q = 0 then None
                 else Some (trunc (of_int (uint ts - uint first) * (1 / q)))
      | _ \<Rightarrow> None)"

section \<open>Basic facts\<close>

lemma emit_simps [simp]:
  "trace (emit e s) = trace s @ [e]" "halt (emit e s) = halt s"
  "params (emit e s) = params s" "hounds (emit e s) = hounds s"
  "nspercycle (emit e s) = nspercycle s"
  by (simp_all add: emit_def params_def)

lemma stop_simps [simp]:
  "trace (stop oc s) = trace s" "halt (stop oc s) = Some oc"
  "params (stop oc s) = params s" "hounds (stop oc s) = hounds s"
  "nspercycle (stop oc s) = nspercycle s"
  by (simp_all add: stop_def params_def)

lemma guard_halted [simp]: "halt s = Some oc \<Longrightarrow> guard f s = s"
  by (simp add: guard_def)

lemma guard_running [simp]: "halt s = None \<Longrightarrow> guard f s = f s"
  by (simp add: guard_def)

lemma for_each_halted [simp]: "halt s = Some oc \<Longrightarrow> for_each body is s = s"
  by (cases "is") simp_all

lemma parse_options_halted [simp]: "halt s = Some oc \<Longrightarrow> parse_options en opts s = s"
  by (cases opts) simp_all

lemma parse_options_append:
  "parse_options en (xs @ ys) s = parse_options en ys (parse_options en xs s)"
proof (induction xs arbitrary: s)
  case Nil
  show ?case by simp
next
  case (Cons x xs)
  show ?case
  proof (cases "halt s")
    case None
    then show ?thesis by (simp add: Cons.IH)
  next
    case (Some oc)
    then show ?thesis by simp
  qed
qed

lemma parse_options_running:
  "halt (parse_options en opts s) = None \<Longrightarrow> halt s = None"
  by (cases "halt s") simp_all

lemma handle_option_n:
  "atoi a = Some v \<Longrightarrow>
   handle_option en (CHR ''n'', Some a) s = s\<lparr>numsamples := word_of_int v\<rparr>"
  by (simp add: handle_option_def with_optarg_def with_atoi_def)

lemma handle_option_numsamples:
  "fst opt \<noteq> CHR ''n'' \<Longrightarrow> numsamples (handle_option en opt s) = numsamples s"
  by (simp add: handle_option_def with_optarg_def with_atoi_def set_interval_def usage_def
      stop_def emit_def Let_def split: option.splits)

lemma parse_options_numsamples:
  "\<forall>opt\<in>set opts. fst opt \<noteq> CHR ''n'' \<Longrightarrow>
   numsamples (parse_options en opts s) = numsamples s"
  by (induction opts arbitrary: s) (simp_all add: handle_option_numsamples)


lemma uint_negative_int:
  assumes "INT_MIN \<le> v" "v < 0"
  shows "uint (word_of_int v :: ulong) = 18446744073709551616 + v"
proof -
  have "(v + 18446744073709551616) mod 18446744073709551616 = v mod 18446744073709551616"
    by (rule mod_add_self2)
  moreover have "(v + 18446744073709551616) mod 18446744073709551616 = v + 18446744073709551616"
    using assms by (intro mod_pos_pos_trivial) (simp_all add: INT_MIN_def)
  ultimately have "v mod 18446744073709551616 = 18446744073709551616 + v"
    by simp
  then show ?thesis by (simp add: uint_word_of_int)
qed

lemma negative_exceeds_max:
  assumes "INT_MIN \<le> v" "v < 0"
  shows "(word_of_int MAX_SAMPLES :: ulong) < word_of_int v"
proof -
  have "uint (word_of_int MAX_SAMPLES :: ulong) = 2000000"
    by (simp add: MAX_SAMPLES_def)
  moreover have "(2000000 :: int) < 18446744073709551616 + v"
    using assms by (simp add: INT_MIN_def)
  ultimately show ?thesis
    using uint_negative_int [OF assms] by (simp add: word_less_def)
qed

lemma atoi_range: "atoi a = Some v \<Longrightarrow> INT_MIN \<le> v \<and> v \<le> INT_MAX"
  by (auto simp: atoi_def Let_def split: if_splits)

lemma params_for_each:
  "(\<And>i s. params (body i s) = params s) \<Longrightarrow> params (for_each body is s) = params s"
  by (induction "is" arbitrary: s) simp_all

lemma params_guard:
  "(\<And>s. params (f s) = params s) \<Longrightarrow> params (guard f s) = params s"
  by (simp add: guard_def)

lemma params_upd [simp]:
  "params (s\<lparr>hounds := h\<rparr>) = params s"
  "params (s\<lparr>start := t\<rparr>) = params s"
  "params (s\<lparr>end_ns := t\<rparr>) = params s"
  "params (s\<lparr>cyclestart := t\<rparr>) = params s"
  "params (s\<lparr>cycleend := t\<rparr>) = params s"
  "params (s\<lparr>nspercycle := x\<rparr>) = params s"
  by (simp_all add: params_def)

lemma params_create_thread [simp]: "params (create_thread en i s) = params s"
  by (simp add: create_thread_def Let_def)

lemma params_join_thread [simp]: "params (join_thread en i s) = params s"
  by (simp add: join_thread_def Let_def)

lemma params_read_start [simp]: "params (read_start en s) = params s"
  by (simp add: read_start_def)

lemma params_read_end [simp]: "params (read_end en s) = params s"
  by (simp add: read_end_def)

lemma params_release_hounds [simp]: "params (release_hounds s) = params s"
  by (simp add: release_hounds_def)

lemma params_threaded [simp]: "params (threaded en s) = params s"
  by (simp add: threaded_def Let_def params_for_each params_guard)

lemma params_sequential [simp]: "params (sequential en s) = params s"
  by (simp add: sequential_def)

lemma params_coordinate [simp]: "params (coordinate en s) = params s"
  by (simp add: coordinate_def)

lemma params_print_line [simp]: "params (print_line en d base k s) = params s"
  by (simp add: print_line_def split: option.splits)

lemma params_print_samples [simp]: "params (print_samples en d b idx s) = params s"
  by (simp add: print_samples_def params_for_each split: option.splits)

lemma params_report_file [simp]: "params (report_file en j s) = params s"
  by (simp add: report_file_def Let_def params_guard)

lemma params_report [simp]: "params (report en s) = params s"
  by (simp add: report_def Let_def params_for_each)

lemma params_finish [simp]: "params (finish s) = params s"
  by (simp add: finish_def)

lemma params_main: "params (main en d opts) = params (before_launch en d opts)"
  by (simp add: main_def params_guard)

lemma numsamples_main: "numsamples (main en d opts) = numsamples (before_launch en d opts)"
  using params_main [of en d opts] by (simp add: params_def)


lemma adds_refl [simp]: "adds A s s"
  by (simp add: adds_def)

lemma adds_trans: "adds A s s' \<Longrightarrow> adds A s' s'' \<Longrightarrow> adds A s s''"
  by (auto simp: adds_def)

lemma adds_mono: "adds A s s' \<Longrightarrow> A \<subseteq> B \<Longrightarrow> adds B s s'"
  by (auto simp: adds_def)

lemma adds_same_trace: "adds A s s' \<Longrightarrow> trace s'' = trace s' \<Longrightarrow> adds A s s''"
  by (simp add: adds_def)

lemma adds_emit: "e \<in> A \<Longrightarrow> adds A s s' \<Longrightarrow> adds A s (emit e s')"
  by (auto simp: adds_def)

lemma adds_stop: "adds A s s' \<Longrightarrow> adds A s (stop oc s')"
  by (simp add: adds_def)

lemma adds_guard: "(\<And>s. adds A s (f s)) \<Longrightarrow> adds A s (guard f s)"
  by (simp add: guard_def)

lemma adds_for_each: "(\<And>i s. adds A s (body i s)) \<Longrightarrow> adds A s (for_each body is s)"
proof (induction "is" arbitrary: s)
  case Nil
  show ?case by simp
next
  case (Cons i "is")
  show ?case
  proof (cases "halt s")
    case None
    then show ?thesis using Cons.IH [OF Cons.prems] Cons.prems adds_trans by simp blast
  next
    case (Some oc)
    then show ?thesis by simp
  qed
qed


lemma adds_handle_option: "adds (during Options) s (handle_option en opt s)"
  by (auto simp: adds_def during_def handle_option_def with_optarg_def with_atoi_def
      set_interval_def usage_def stop_def emit_def Let_def split: option.splits)

lemma adds_parse_options: "adds (during Options) s (parse_options en opts s)"
proof (induction opts arbitrary: s)
  case Nil
  show ?case by simp
next
  case (Cons opt opts)
  show ?case
  proof (cases "halt s")
    case None
    then show ?thesis
      using adds_trans [OF adds_handle_option Cons.IH] by simp
  next
    case (Some oc)
    then show ?thesis by simp
  qed
qed

lemma adds_sanity_check: "adds (during Prepare) s (sanity_check s)"
  by (auto simp: adds_def during_def sanity_check_def emit_def)

lemma adds_allocate: "adds (during Prepare) s (allocate en s)"
  by (auto simp: adds_def during_def allocate_def emit_def stop_def Let_def)

lemma adds_stdout_check: "adds (during Prepare) s (stdout_check s)"
  by (auto simp: adds_def during_def stdout_check_def emit_def stop_def)

lemma adds_calibrate: "adds (during Prepare) s (calibrate en s)"
  by (auto simp: adds_def during_def calibrate_def emit_def)

lemma adds_create_thread: "adds (during Launch) s (create_thread en i s)"
  by (auto simp: adds_def during_def create_thread_def emit_def stop_def Let_def)

lemma adds_join_thread: "adds (during Launch) s (join_thread en i s)"
  by (auto simp: adds_def during_def join_thread_def emit_def stop_def Let_def)

lemma adds_read_start: "adds (during Launch) s (read_start en s)"
  by (auto simp: adds_def during_def read_start_def emit_def)

lemma adds_read_end: "adds (during Launch) s (read_end en s)"
  by (auto simp: adds_def during_def read_end_def emit_def)

lemma adds_release_hounds: "adds (during Launch) s (release_hounds s)"
  by (auto simp: adds_def during_def release_hounds_def emit_def)

lemma adds_then: "adds A s s' \<Longrightarrow> adds A s' s'' \<Longrightarrow> adds A s s''"
  by (rule adds_trans)

lemma adds_sequential: "adds (during Launch) s (sequential en s)"
proof -
  let ?A = "during Launch"
  have 1: "adds ?A s (release_hounds s)" by (rule adds_release_hounds)
  have 2: "adds ?A s (read_start en (release_hounds s))"
    by (rule adds_then [OF 1 adds_read_start])
  have 3: "adds ?A s (emit (Ftq_core 0) (read_start en (release_hounds s)))"
    by (rule adds_emit [OF _ 2]) (simp add: during_def)
  show ?thesis
    unfolding sequential_def by (rule adds_then [OF 3 adds_read_end])
qed

lemma adds_threaded: "adds (during Launch) s (threaded en s)"
proof -
  let ?A = "during Launch"
  let ?n = "[0..<nat (numthreads s)]"
  let ?s0 = "emit (Threadinit (numthreads s)) s"
  let ?s1 = "emit Malloc_threads ?s0"
  let ?s2 = "read_start en (emit Memset_threads ?s1)"
  let ?s3 = "for_each (create_thread en) ?n ?s2"
  let ?s4 = "guard release_hounds ?s3"
  let ?s5 = "guard (for_each (join_thread en) ?n) ?s4"
  have 0: "adds ?A s ?s0" by (rule adds_emit) (simp_all add: during_def)
  have 1: "adds ?A s ?s1" by (rule adds_emit [OF _ 0]) (simp add: during_def)
  have m: "adds ?A s (emit Memset_threads ?s1)"
    by (rule adds_emit [OF _ 1]) (simp add: during_def)
  have 2: "adds ?A s ?s2" by (rule adds_then [OF m adds_read_start])
  have 3: "adds ?A s ?s3"
    by (rule adds_then [OF 2 adds_for_each]) (rule adds_create_thread)
  have 4: "adds ?A s ?s4"
    by (rule adds_then [OF 3 adds_guard]) (rule adds_release_hounds)
  have 5: "adds ?A s ?s5"
    by (rule adds_then [OF 4 adds_guard]) (rule adds_for_each, rule adds_join_thread)
  have 6: "adds ?A s (guard (read_end en) ?s5)"
    by (rule adds_then [OF 5 adds_guard]) (rule adds_read_end)
  have a: "adds ?A s (stop oc (emit Err_threadinit ?s0))" for oc
    by (rule adds_stop, rule adds_emit [OF _ 0]) (simp add: during_def)
  have b: "adds ?A s (stop oc ?s1)" for oc
    by (rule adds_stop [OF 1])
  show ?thesis
    using 6 a b by (simp add: threaded_def Let_def)
qed

lemma adds_coordinate: "adds (during Launch) s (coordinate en s)"
  by (simp add: coordinate_def adds_threaded adds_sequential)

lemma adds_print_line: "adds (during Report) s (print_line en d base k s)"
proof -
  have "adds (during Report) s (emit (Line d e c) s)" for e c
    by (rule adds_emit) (simp_all add: during_def)
  then show ?thesis
    by (simp add: print_line_def adds_stop split: option.splits)
qed

lemma adds_print_samples: "adds (during Report) s (print_samples en d b idx s)"
proof (cases "sample_at en s (unat b)")
  case None
  then show ?thesis by (simp add: print_samples_def adds_stop)
next
  case (Some base)
  have "adds (during Report) s
      (for_each (\<lambda>i. print_line en d base (idx i)) [0..<unat (numsamples s)] s)"
    by (rule adds_for_each) (rule adds_print_line)
  with Some show ?thesis by (simp add: print_samples_def)
qed

lemma adds_report_file: "adds (during Report) s (report_file en j s)"
proof -
  let ?A = "during Report"
  let ?s1 = "emit (Fopen (outname s) j) s"
  let ?s2 = "print_samples en (File j) (file_base (numsamples s) j)
               (file_index (numsamples s) j) (emit (Header (File j) j) ?s1)"
  have 1: "adds ?A s ?s1" by (rule adds_emit) (simp_all add: during_def)
  have h: "adds ?A s (emit (Header (File j) j) ?s1)"
    by (rule adds_emit [OF _ 1]) (simp add: during_def)
  have 2: "adds ?A s ?s2" by (rule adds_then [OF h adds_print_samples])
  have g: "adds ?A s' (emit (Fclose j) s')" for s'
    by (rule adds_emit) (simp_all add: during_def)
  have 3: "adds ?A s (guard (emit (Fclose j)) ?s2)"
    by (rule adds_then [OF 2 adds_guard]) (rule g)
  have a: "adds ?A s (stop oc (emit Perror_fopen ?s1))" for oc
    by (rule adds_stop, rule adds_emit [OF _ 1]) (simp add: during_def)
  show ?thesis
    using 3 a by (simp add: report_file_def Let_def)
qed

lemma adds_report: "adds (during Report) s (report en s)"
proof -
  let ?A = "during Report"
  let ?s1 = "(emit Stats s)\<lparr>nspercycle :=
               ns_per_cycle (end_ns s - start s) (cycleend s - cyclestart s)\<rparr>"
  have 0: "adds ?A s (emit Stats s)" by (rule adds_emit) (simp_all add: during_def)
  have 1: "adds ?A s ?s1" by (rule adds_same_trace [OF 0]) (simp add: emit_def)
  have h: "adds ?A s (emit (Header Stdout 0) ?s1)"
    by (rule adds_emit [OF _ 1]) (simp add: during_def)
  have a: "adds ?A s (print_samples en Stdout 0 stdout_index (emit (Header Stdout 0) ?s1))"
    by (rule adds_then [OF h adds_print_samples])
  have b: "adds ?A s (for_each (report_file en) [0..<nat (numthreads s)] ?s1)"
    by (rule adds_then [OF 1 adds_for_each]) (rule adds_report_file)
  show ?thesis
    using a b by (simp add: report_def Let_def)
qed

lemma trace_finish [simp]: "trace (finish s) = trace s"
  by (simp add: finish_def)


lemma handle_option_quiet:
  "halt s = None \<Longrightarrow> halt (handle_option en opt s) = None \<Longrightarrow>
   trace (handle_option en opt s) = trace s"
  by (auto simp: handle_option_def with_optarg_def with_atoi_def set_interval_def usage_def
      stop_def emit_def Let_def split: option.splits if_splits)

lemma parse_options_quiet:
  "halt (parse_options en opts s) = None \<Longrightarrow> trace (parse_options en opts s) = trace s"
proof (induction opts arbitrary: s)
  case Nil
  show ?case by simp
next
  case (Cons opt opts)
  have s: "halt s = None"
    using Cons.prems by (rule parse_options_running)
  with Cons.prems have r: "halt (parse_options en opts (handle_option en opt s)) = None"
    by simp
  then have h: "halt (handle_option en opt s) = None"
    by (rule parse_options_running)
  show ?case
    using s Cons.IH [OF r] handle_option_quiet [OF s h] by simp
qed

lemma after_options_quiet:
  "halt (after_options en d opts) = None \<Longrightarrow> trace (after_options en d opts) = []"
  unfolding after_options_def using parse_options_quiet [of en opts "init d"]
  by (simp add: init_def)

lemma halt_sanity_check [simp]: "halt (sanity_check s) = halt s"
  by (simp add: sanity_check_def emit_def)

lemma halt_calibrate [simp]: "halt (calibrate en s) = halt s"
  by (simp add: calibrate_def emit_def)

lemma numsamples_later [simp]:
  "numsamples (allocate en s) = numsamples s"
  "numsamples (stdout_check s) = numsamples s"
  "numsamples (calibrate en s) = numsamples s"
  by (simp_all add: allocate_def stdout_check_def calibrate_def emit_def stop_def Let_def)

lemma numthreads_prepare [simp]:
  "numthreads (sanity_check s) = numthreads s"
  "numthreads (allocate en s) = numthreads s"
  "numthreads (stdout_check s) = numthreads s"
  "numthreads (calibrate en s) = numthreads s"
  by (simp_all add: sanity_check_def allocate_def stdout_check_def calibrate_def emit_def
      stop_def Let_def)

lemma before_launch_unfold:
  "halt (after_options en d opts) = None \<Longrightarrow>
   before_launch en d opts =
     guard (calibrate en) (guard stdout_check
       (allocate en (sanity_check (after_options en d opts))))"
  by (simp add: before_launch_def)

lemma numsamples_before_launch:
  "halt (after_options en d opts) = None \<Longrightarrow>
   numsamples (before_launch en d opts) = numsamples (sanity_check (after_options en d opts))"
  by (simp add: before_launch_unfold guard_def)

lemma numthreads_before_launch:
  "numthreads (before_launch en d opts) = numthreads (after_options en d opts)"
  by (simp add: before_launch_def guard_def)

lemma numthreads_main: "numthreads (main en d opts) = numthreads (after_options en d opts)"
  using params_main [of en d opts] by (simp add: params_def numthreads_before_launch)

lemma numsamples_sanity_check:
  "numsamples (sanity_check s) = min (numsamples s) (word_of_int MAX_SAMPLES)"
  by (auto simp: sanity_check_def emit_def min_def)

lemma adds_main: "adds UNIV (before_launch en d opts) (main en d opts)"
proof -
  let ?b = "before_launch en d opts"
  have 1: "adds UNIV ?b (guard (coordinate en) ?b)"
    by (rule adds_guard) (rule adds_mono [OF adds_coordinate], simp)
  have 2: "adds UNIV ?b (guard (report en) (guard (coordinate en) ?b))"
    by (rule adds_then [OF 1 adds_guard]) (rule adds_mono [OF adds_report], simp)
  have "adds UNIV (guard (report en) (guard (coordinate en) ?b)) (main en d opts)"
    by (simp add: main_def guard_def adds_def)
  with 2 show ?thesis by (rule adds_then)
qed

lemma adds_after_allocate:
  assumes "halt (after_options en d opts) = None"
  shows "adds UNIV (allocate en (sanity_check (after_options en d opts))) (main en d opts)"
proof -
  let ?a = "allocate en (sanity_check (after_options en d opts))"
  have 1: "adds UNIV ?a (guard stdout_check ?a)"
    by (rule adds_guard) (rule adds_mono [OF adds_stdout_check], simp)
  have 2: "adds UNIV ?a (guard (calibrate en) (guard stdout_check ?a))"
    by (rule adds_then [OF 1 adds_guard]) (rule adds_mono [OF adds_calibrate], simp)
  show ?thesis
    using adds_then [OF 2] adds_main [of en d opts] assms by (simp add: before_launch_unfold)
qed

lemma trace_allocate:
  "\<exists>rest. trace (allocate en s) =
     trace s @ Mmap (8 * numsamples s * 2 * word_of_int (numthreads s)) # rest"
  by (simp add: allocate_def Let_def emit_def stop_def)

lemma trace_sanity_check:
  "trace (sanity_check s) =
     trace s @ (if word_of_int MAX_SAMPLES < numsamples s then [Warn_max_samples] else [])"
  by (simp add: sanity_check_def emit_def)

lemma floor_rat_numeral_div:
  "\<lfloor>numeral a / numeral b :: rat\<rfloor> = numeral a div numeral b"
  using floor_divide_of_int_eq [of "numeral a" "numeral b", where ?'a = rat] by simp

lemma floor_rat_one_div:
  "\<lfloor>1 / numeral b :: rat\<rfloor> = 1 div numeral b"
  using floor_divide_of_int_eq [of 1 "numeral b", where ?'a = rat] by simp

lemma ceiling_rat_numeral_div:
  "\<lceil>numeral a / numeral b :: rat\<rceil> = - ((- numeral a) div numeral b)"
  using ceiling_divide_eq_div [of "numeral a" "numeral b"]
  by (simp add: ceiling_def floor_rat_numeral_div)

lemma ceiling_rat_one_div:
  "\<lceil>1 / numeral b :: rat\<rceil> = - ((- 1) div numeral b)"
  unfolding ceiling_def using floor_divide_of_int_eq [of "- 1" "numeral b", where ?'a = rat] by simp

lemmas fl_eval = rnd_def rnd_double_def rnd_float_def flog2_def pow2_def rne_def trunc_def Let_def
  compute_floorlog floor_rat_numeral_div ceiling_rat_numeral_div floor_rat_one_div
  ceiling_rat_one_div double_of_int_def double_of_ull_def float_of_ull_def

lemmas run_eval = main_def before_launch_def after_options_def init_def guard_def
  handle_option_def with_optarg_def with_atoi_def set_interval_def cast_to_ull_def usage_def
  sanity_check_def allocate_def stdout_check_def calibrate_def
  coordinate_def threaded_def sequential_def create_thread_def join_thread_def
  read_start_def read_end_def release_hounds_def
  report_def report_file_def print_samples_def print_line_def sample_at_def
  ns_per_cycle_def elapsed_ns_def stdout_index_def file_base_def file_index_def
  finish_def emit_def stop_def
  atoi_def atoi_value_def isspace_def isdigit_def INT_MIN_def INT_MAX_def MAX_SAMPLES_def
  env0_def startup0_def sscanf_digits_def

lemma parse_options_last_n:
  assumes "atoi a = Some v"
    and "\<forall>opt\<in>set post. fst opt \<noteq> CHR ''n''"
    and "halt (parse_options en (pre @ (CHR ''n'', Some a) # post) s) = None"
  shows "numsamples (parse_options en (pre @ (CHR ''n'', Some a) # post) s) = word_of_int v"
proof -
  let ?q = "parse_options en pre s"
  have split: "parse_options en (pre @ (CHR ''n'', Some a) # post) s =
      parse_options en ((CHR ''n'', Some a) # post) ?q"
    by (rule parse_options_append)
  have q: "halt ?q = None"
    using assms(3) unfolding split by (rule parse_options_running)
  have "parse_options en ((CHR ''n'', Some a) # post) ?q =
      parse_options en post (?q\<lparr>numsamples := word_of_int v\<rparr>)"
    using q by (simp add: handle_option_n [OF assms(1)])
  then show ?thesis
    unfolding split using assms(2) by (simp add: parse_options_numsamples)
qed

lemma ends_refl [simp]: "ends H s s"
  by (simp add: ends_def)

lemma ends_then:
  "ends H s s' \<Longrightarrow> ends H s' s'' \<Longrightarrow> (\<And>oc. halt s' = Some oc \<Longrightarrow> s'' = s') \<Longrightarrow> ends H s s''"
  by (cases "halt s'") (auto simp: ends_def)

lemma ends_mono: "ends H s s' \<Longrightarrow> H \<subseteq> H' \<Longrightarrow> ends H' s s'"
  by (auto simp: ends_def)

lemma ends_guard: "ends H s s' \<Longrightarrow> (\<And>t. ends H t (f t)) \<Longrightarrow> ends H s (guard f s')"
  by (rule ends_then [where s' = s']) (simp_all add: guard_def)

lemma ends_for_each: "(\<And>i t. ends H t (body i t)) \<Longrightarrow> ends H s (for_each body is s)"
proof (induction "is" arbitrary: s)
  case Nil
  show ?case by simp
next
  case (Cons i "is")
  show ?case
  proof (cases "halt s")
    case None
    have "ends H s (for_each body is (body i s))"
      by (rule ends_then [OF Cons.prems Cons.IH [OF Cons.prems]]) simp
    with None show ?thesis by simp
  next
    case (Some oc)
    then show ?thesis by simp
  qed
qed

lemma ends_loop:
  "ends H s s' \<Longrightarrow> (\<And>i t. ends H t (body i t)) \<Longrightarrow> ends H s (for_each body is s')"
  by (rule ends_then [where s' = s']) (simp_all add: ends_for_each)

lemma ends_coordinate:
  "ends {Exit_failure, Assert_abort Threadinit_ok, Undefined Null_threads} s (coordinate en s)"
proof -
  let ?H = "{Exit_failure, Assert_abort Threadinit_ok, Undefined Null_threads}"
  have c: "ends ?H s (create_thread en i s)" for i s
    by (simp add: ends_def create_thread_def Let_def)
  have j: "ends ?H s (join_thread en i s)" for i s
    by (simp add: ends_def join_thread_def Let_def)
  have r: "ends ?H s (release_hounds s)" for s
    by (simp add: ends_def release_hounds_def)
  have e: "ends ?H s (read_end en s)" for s
    by (simp add: ends_def read_end_def)
  have b: "ends ?H s (read_start en s)" for s
    by (simp add: ends_def read_start_def)
  let ?n = "[0..<nat (numthreads s)]"
  let ?s2 = "read_start en (emit Memset_threads (emit Malloc_threads (emit (Threadinit (numthreads s)) s)))"
  have 2: "ends ?H s ?s2"
    by (simp add: ends_def read_start_def)
  have 3: "ends ?H s (for_each (create_thread en) ?n ?s2)"
    by (rule ends_loop [OF 2]) (rule c)
  have 4: "ends ?H s (guard release_hounds (for_each (create_thread en) ?n ?s2))"
    by (rule ends_guard [OF 3]) (rule r)
  have 5: "ends ?H s (guard (for_each (join_thread en) ?n)
      (guard release_hounds (for_each (create_thread en) ?n ?s2)))"
    by (rule ends_guard [OF 4]) (rule ends_for_each, rule j)
  have 6: "ends ?H s (guard (read_end en) (guard (for_each (join_thread en) ?n)
      (guard release_hounds (for_each (create_thread en) ?n ?s2))))"
    by (rule ends_guard [OF 5]) (rule e)
  have t: "ends ?H s (threaded en s)"
    using 6 by (simp add: threaded_def Let_def ends_def)
  have q: "ends ?H s (sequential en s)"
    by (simp add: ends_def sequential_def read_end_def read_start_def release_hounds_def)
  show ?thesis
    using t q by (simp add: coordinate_def)
qed




lemma allocate_ok:
  assumes "mmap_ok en \<or> malloc_ok en"
  shows "halt (allocate en s) = halt s"
    and "\<exists>mid. trace (allocate en s) = trace s @ Mmap (alloc_size s) # mid @ [Memset_samples (alloc_size s)]
           \<and> set mid \<subseteq> during Prepare
           \<and> (\<not> mmap_ok en \<longrightarrow> Malloc_samples (alloc_size s) \<in> set mid)"
  using assms
  by (auto simp: allocate_def alloc_size_def Let_def emit_def stop_def during_def)

lemma allocate_fail:
  assumes "\<not> mmap_ok en" "\<not> malloc_ok en"
  shows "halt (allocate en s) = Some (Assert_abort Samples_allocated)"
    and "trace (allocate en s) =
           trace s @ [Mmap (alloc_size s), Perror_mmap, Malloc_samples (alloc_size s)]"
  using assms by (simp_all add: allocate_def alloc_size_def Let_def emit_def stop_def)

lemma samples_size_allocate [simp]: "samples_size (allocate en s) = alloc_size s"
  by (simp add: allocate_def alloc_size_def Let_def emit_def stop_def)

lemma samples_size_later [simp]:
  "samples_size (stdout_check s) = samples_size s"
  "samples_size (calibrate en s) = samples_size s"
  by (simp_all add: stdout_check_def calibrate_def emit_def stop_def)

lemma alloc_size_sanity_check:
  "alloc_size (sanity_check s) =
     8 * min (numsamples s) (word_of_int MAX_SAMPLES) * 2 * word_of_int (numthreads s)"
  by (simp add: alloc_size_def numsamples_sanity_check)

lemma samples_size_main:
  assumes "halt (after_options en d opts) = None"
  shows "samples_size (main en d opts) = alloc_size (sanity_check (after_options en d opts))"
proof -
  have "samples_size (main en d opts) = samples_size (before_launch en d opts)"
    using params_main [of en d opts] by (simp add: params_def)
  also have "\<dots> = alloc_size (sanity_check (after_options en d opts))"
    using assms by (simp add: before_launch_unfold guard_def)
  finally show ?thesis .
qed

lemma ends_stdout_check: "ends {Exit_failure} s (stdout_check s)"
  by (simp add: ends_def stdout_check_def)

lemma ends_calibrate: "ends {} s (calibrate en s)"
  by (simp add: ends_def)


lemma main_halted_early:
  "halt (before_launch en d opts) = Some oc \<Longrightarrow> main en d opts = before_launch en d opts"
  by (simp add: main_def)

lemma before_launch_alloc_failed:
  assumes "halt (after_options en d opts) = None"
    and "halt (allocate en (sanity_check (after_options en d opts))) = Some oc"
  shows "main en d opts = allocate en (sanity_check (after_options en d opts))"
proof -
  have "before_launch en d opts = allocate en (sanity_check (after_options en d opts))"
    using assms by (simp add: before_launch_unfold)
  with assms(2) show ?thesis
    by (simp add: main_halted_early)
qed

lemma trace_sanity_check_prepare:
  "halt (after_options en d opts) = None \<Longrightarrow>
   set (trace (sanity_check (after_options en d opts))) \<subseteq> during Prepare"
  by (auto simp: trace_sanity_check after_options_quiet during_def)

lemma flags_prepare [simp]:
  "use_stdout (sanity_check s) = use_stdout s"
  "use_stdout (allocate en s) = use_stdout s"
  by (simp_all add: sanity_check_def allocate_def emit_def stop_def Let_def)

lemma double_of_int_0: "double_of_int 0 = Fin 0"
  by (simp add: double_of_int_def rnd_double_def rnd_def)

lemma frequency_quotient_0: "frequency_quotient 0 = PInf"
  by (simp add: frequency_quotient_def double_of_int_0)

lemma handle_option_f_zero:
  "atoi a = Some 0 \<Longrightarrow>
   handle_option en (CHR ''f'', Some a) s = s\<lparr>interval := undefined_cast en PInf\<rparr>"
  by (simp add: handle_option_def with_optarg_def with_atoi_def set_interval_def
      cast_to_ull_def frequency_quotient_0)

lemma main_options_halted:
  "halt (after_options en d opts) = Some oc \<Longrightarrow> main en d opts = after_options en d opts"
  by (simp add: main_def before_launch_def)

lemma digits_not_digit: "\<not> isdigit c \<Longrightarrow> digits acc (c # cs) = acc"
  by simp

lemma atoi_no_digits:
  assumes "dropWhile isspace a = c # cs" and "\<not> isdigit c"
    and "c = CHR ''-'' \<or> c = CHR ''+'' \<Longrightarrow> cs = [] \<or> \<not> isdigit (hd cs)"
  shows "atoi a = Some 0"
proof -
  have "atoi_value a = 0"
  proof (cases "c = CHR ''-'' \<or> c = CHR ''+''")
    case True
    with assms(3) have "digits 0 cs = 0"
      by (cases cs) auto
    with True assms(1) show ?thesis
      by (auto simp: atoi_value_def)
  next
    case False
    with assms(1,2) show ?thesis
      by (simp add: atoi_value_def)
  qed
  then show ?thesis
    by (simp add: atoi_def INT_MIN_def INT_MAX_def)
qed



lemma ticksperns_prepare [simp]:
  "ticksperns (sanity_check s) = ticksperns s"
  "ticksperns (allocate en s) = ticksperns s"
  "ticksperns (stdout_check s) = ticksperns s"
  by (simp_all add: sanity_check_def allocate_def stdout_check_def emit_def stop_def Let_def)

lemma ticksperns_main: "ticksperns (main en d opts) = ticksperns (before_launch en d opts)"
  using params_main [of en d opts] by (simp add: params_def)

lemma before_launch_calibration:
  "before_launch en d opts = guard (calibrate en) (before_calibration en d opts)"
  by (simp add: before_launch_def before_calibration_def)

lemma halt_before_launch: "halt (before_launch en d opts) = halt (before_calibration en d opts)"
  by (simp add: before_launch_calibration guard_def)

lemma ticksperns_before_calibration:
  "ticksperns (before_calibration en d opts) = ticksperns (after_options en d opts)"
  by (simp add: before_calibration_def guard_def)

lemma before_calibration_events:
  assumes "halt (after_options en d opts) = None"
  shows "set (trace (before_calibration en d opts)) \<subseteq> during Prepare - {Compute_ticksperns}"
proof -
  let ?A = "during Prepare - {Compute_ticksperns}"
  let ?P = "after_options en d opts"
  have 1: "adds ?A ?P (sanity_check ?P)"
    by (auto simp: adds_def during_def sanity_check_def emit_def)
  have a: "adds ?A s (allocate en s)" for s
    by (auto simp: adds_def during_def allocate_def emit_def stop_def Let_def)
  have c: "adds ?A s (stdout_check s)" for s
    by (auto simp: adds_def during_def stdout_check_def emit_def stop_def)
  have 2: "adds ?A ?P (guard (allocate en) (sanity_check ?P))"
    by (rule adds_then [OF 1 adds_guard]) (rule a)
  have 3: "adds ?A ?P (guard stdout_check (guard (allocate en) (sanity_check ?P)))"
    by (rule adds_then [OF 2 adds_guard]) (rule c)
  then have "adds ?A ?P (before_calibration en d opts)"
    using assms by (simp add: before_calibration_def)
  then show ?thesis
    using after_options_quiet [OF assms] by (auto simp: adds_def)
qed


lemma count_list_absent: "x \<notin> set xs \<Longrightarrow> count_list xs x = 0"
  by (induction xs) auto

lemma create_thread_attempt: "create_thread en = attempt Pthread_create Err_create (pthread_create en)"
  by (rule ext)+ (simp add: create_thread_def attempt_def)

lemma join_thread_attempt: "join_thread en = attempt Pthread_join Err_join (pthread_join en)"
  by (rule ext)+ (simp add: join_thread_def attempt_def)

lemma attempt_ok: "rc i = 0 \<Longrightarrow> attempt ev err rc i s = emit (ev i) s"
  by (simp add: attempt_def)

lemma attempt_fail:
  "rc i \<noteq> 0 \<Longrightarrow> attempt ev err rc i s = stop Exit_failure (emit err (emit (ev i) s))"
  by (simp add: attempt_def)

lemma attempts_ok:
  "halt s = None \<Longrightarrow> \<forall>i\<in>set is. rc i = 0 \<Longrightarrow>
   for_each (attempt ev err rc) is s = s\<lparr>trace := trace s @ map ev is\<rparr>"
proof (induction "is" arbitrary: s)
  case Nil
  show ?case by simp
next
  case (Cons i "is")
  have "for_each (attempt ev err rc) (i # is) s = for_each (attempt ev err rc) is (emit (ev i) s)"
    using Cons.prems by (simp add: attempt_ok)
  also have "\<dots> = (emit (ev i) s)\<lparr>trace := trace (emit (ev i) s) @ map ev is\<rparr>"
    using Cons.prems by (intro Cons.IH) simp_all
  finally show ?case by (simp add: emit_def)
qed

lemma attempts_fail:
  "halt s = None \<Longrightarrow> \<not> (\<forall>i\<in>set is. rc i = 0) \<Longrightarrow>
   halt (for_each (attempt ev err rc) is s) = Some Exit_failure"
proof (induction "is" arbitrary: s)
  case Nil
  then show ?case by simp
next
  case (Cons i "is")
  show ?case
  proof (cases "rc i = 0")
    case True
    with Cons.prems have "\<not> (\<forall>i\<in>set is. rc i = 0)" by simp
    then have "halt (for_each (attempt ev err rc) is (emit (ev i) s)) = Some Exit_failure"
      using Cons.prems(1) by (intro Cons.IH) simp_all
    with True Cons.prems(1) show ?thesis by (simp add: attempt_ok)
  next
    case False
    with Cons.prems(1) show ?thesis by (simp add: attempt_fail)
  qed
qed

lemma adds_attempt: "ev i \<in> A \<Longrightarrow> err \<in> A \<Longrightarrow> adds A s (attempt ev err rc i s)"
  by (auto simp: attempt_def adds_def Let_def)

lemma adds_attempts: "range ev \<subseteq> A \<Longrightarrow> err \<in> A \<Longrightarrow> adds A s (for_each (attempt ev err rc) is s)"
  by (rule adds_for_each) (rule adds_attempt, auto)

lemma hounds_for_each:
  "(\<And>i s. hounds (body i s) = hounds s) \<Longrightarrow> hounds (for_each body is s) = hounds s"
  by (induction "is" arbitrary: s) simp_all

lemma hounds_attempt [simp]: "hounds (attempt ev err rc i s) = hounds s"
  by (simp add: attempt_def Let_def)

lemma threaded_not_released:
  assumes "halt s = None" and "\<not> creates_ok en (numthreads s)"
  shows "halt (threaded en s) \<noteq> None"
    and "adds before_release s (threaded en s)"
    and "hounds (threaded en s) = hounds s"
proof -
  let ?nt = "numthreads s"
  let ?n = "[0..<nat ?nt]"
  let ?s0 = "emit (Threadinit ?nt) s"
  let ?s1 = "emit Malloc_threads ?s0"
  let ?s2 = "read_start en (emit Memset_threads ?s1)"
  let ?s3 = "for_each (create_thread en) ?n ?s2"
  have a0: "adds before_release s ?s0"
    by (auto simp: adds_def before_release_def)
  have a1: "adds before_release s ?s1"
    by (auto simp: adds_def before_release_def)
  have a2: "adds before_release s ?s2"
    by (auto simp: adds_def before_release_def read_start_def emit_def)
  have a3: "adds before_release s ?s3"
    unfolding create_thread_attempt
    by (rule adds_then [OF a2 adds_attempts]) (auto simp: before_release_def)
  have h2: "halt ?s2 = None"
    using assms(1) by (simp add: read_start_def emit_def)
  have k3: "hounds ?s3 = hounds s"
    unfolding create_thread_attempt by (simp add: hounds_for_each read_start_def emit_def)
  have "threadinit en ?nt < 0 \<or> (0 \<le> threadinit en ?nt \<and> \<not> threads_malloc_ok en)
      \<or> (0 \<le> threadinit en ?nt \<and> threads_malloc_ok en
          \<and> \<not> (\<forall>i\<in>set ?n. pthread_create en i = 0))"
    using assms(2) unfolding creates_ok_def by linarith
  then consider (init) "threadinit en ?nt < 0"
    | (malloc) "0 \<le> threadinit en ?nt" "\<not> threads_malloc_ok en"
    | (create) "0 \<le> threadinit en ?nt" "threads_malloc_ok en"
        "\<not> (\<forall>i\<in>set ?n. pthread_create en i = 0)"
    by blast
  then have "halt (threaded en s) \<noteq> None \<and> adds before_release s (threaded en s)
      \<and> hounds (threaded en s) = hounds s"
  proof cases
    case init
    have "adds before_release s (stop (Assert_abort Threadinit_ok) (emit Err_threadinit ?s0))"
      by (auto simp: adds_def before_release_def)
    with init show ?thesis by (simp add: threaded_def Let_def)
  next
    case malloc
    then show ?thesis using a1 by (simp add: threaded_def Let_def adds_stop)
  next
    case create
    have h3: "halt ?s3 = Some Exit_failure"
      unfolding create_thread_attempt using h2 create(3) by (rule attempts_fail)
    then have "threaded en s = ?s3"
      using create(1,2) by (simp add: threaded_def Let_def)
    then show ?thesis using h3 a3 k3 by simp
  qed
  then show "halt (threaded en s) \<noteq> None" "adds before_release s (threaded en s)"
    "hounds (threaded en s) = hounds s"
    by simp_all
qed

lemma threaded_released:
  assumes "halt s = None" and "creates_ok en (numthreads s)"
  shows "hounds (threaded en s) = 1"
    and "joins_ok en (numthreads s) \<Longrightarrow> halt (threaded en s) = None"
    and "joins_ok en (numthreads s) \<Longrightarrow> trace (threaded en s) =
           trace s @ launch_head (numthreads s) @ map Pthread_create [0..<nat (numthreads s)]
           @ [Write_hounds 1] @ map Pthread_join [0..<nat (numthreads s)]
           @ [Read_cycleend, Read_end]"
    and "\<not> joins_ok en (numthreads s) \<Longrightarrow> halt (threaded en s) = Some Exit_failure"
    and "\<not> joins_ok en (numthreads s) \<Longrightarrow> \<exists>js. trace (threaded en s) =
           trace s @ launch_head (numthreads s) @ map Pthread_create [0..<nat (numthreads s)]
           @ [Write_hounds 1] @ js \<and> set js \<subseteq> range Pthread_join \<union> {Err_join}"
proof -
  let ?nt = "numthreads s"
  let ?n = "[0..<nat ?nt]"
  let ?s2 = "read_start en (emit Memset_threads (emit Malloc_threads (emit (Threadinit ?nt) s)))"
  let ?s3 = "for_each (create_thread en) ?n ?s2"
  let ?s4 = "release_hounds ?s3"
  let ?s5 = "for_each (join_thread en) ?n ?s4"
  have c: "0 \<le> threadinit en ?nt" "threads_malloc_ok en" "\<forall>i\<in>set ?n. pthread_create en i = 0"
    using assms(2) by (simp_all add: creates_ok_def)
  have h2: "halt ?s2 = None"
    using assms(1) by (simp add: read_start_def emit_def)
  have t2: "trace ?s2 = trace s @ launch_head ?nt"
    by (simp add: read_start_def emit_def launch_head_def)
  have s3: "?s3 = ?s2\<lparr>trace := trace ?s2 @ map Pthread_create ?n\<rparr>"
    unfolding create_thread_attempt using h2 c(3) by (rule attempts_ok)
  have h3: "halt ?s3 = None"
    by (subst s3) (simp add: h2)
  have t3: "trace ?s3 = trace s @ launch_head ?nt @ map Pthread_create ?n"
    by (subst s3) (simp add: t2)
  have h4: "halt ?s4 = None"
    using h3 by (simp add: release_hounds_def emit_def)
  have t4: "trace ?s4 = trace s @ launch_head ?nt @ map Pthread_create ?n @ [Write_hounds 1]"
    using t3 by (simp add: release_hounds_def emit_def)
  have k5: "hounds ?s5 = 1"
    unfolding join_thread_attempt by (simp add: hounds_for_each release_hounds_def emit_def)
  have thr: "threaded en s = guard (read_end en) ?s5"
    using c(1,2) h3 h4 by (simp add: threaded_def Let_def)
  have "hounds (read_end en ?s5) = hounds ?s5"
    by (simp add: read_end_def)
  then show "hounds (threaded en s) = 1"
    using k5 by (simp add: thr guard_def)
  {
    assume j: "joins_ok en ?nt"
    have s5: "?s5 = ?s4\<lparr>trace := trace ?s4 @ map Pthread_join ?n\<rparr>"
      unfolding join_thread_attempt using h4 j unfolding joins_ok_def by (rule attempts_ok)
    have h5: "halt ?s5 = None"
      by (subst s5) (simp add: h4)
    have t5: "trace ?s5 = trace ?s4 @ map Pthread_join ?n"
      by (subst s5) simp
    show "halt (threaded en s) = None"
      using h5 by (simp add: thr read_end_def)
    have "trace (read_end en ?s5) = trace ?s5 @ [Read_cycleend, Read_end]"
      by (simp add: read_end_def)
    then show "trace (threaded en s) = trace s @ launch_head ?nt @ map Pthread_create ?n
           @ [Write_hounds 1] @ map Pthread_join ?n @ [Read_cycleend, Read_end]"
      using h5 by (simp add: thr t5 t4)
  }
  {
    assume j: "\<not> joins_ok en ?nt"
    have h5: "halt ?s5 = Some Exit_failure"
      unfolding join_thread_attempt using h4 j unfolding joins_ok_def by (rule attempts_fail)
    have "adds (range Pthread_join \<union> {Err_join}) ?s4 ?s5"
      unfolding join_thread_attempt by (rule adds_attempts) auto
    then obtain js where js: "trace ?s5 = trace ?s4 @ js" "set js \<subseteq> range Pthread_join \<union> {Err_join}"
      by (auto simp: adds_def)
    show "halt (threaded en s) = Some Exit_failure"
      using h5 by (simp add: thr)
    have "trace (threaded en s) = trace s @ launch_head ?nt @ map Pthread_create ?n
           @ [Write_hounds 1] @ js"
      using h5 by (simp add: thr js(1) t4)
    with js(2) show "\<exists>js. trace (threaded en s) =
           trace s @ launch_head ?nt @ map Pthread_create ?n
           @ [Write_hounds 1] @ js \<and> set js \<subseteq> range Pthread_join \<union> {Err_join}"
      by blast
  }
qed

lemma sequential_run:
  "trace (sequential en s) =
     trace s @ [Write_hounds 1, Read_start, Read_cyclestart, Ftq_core 0, Read_cycleend, Read_end]"
  "halt (sequential en s) = halt s"
  "hounds (sequential en s) = 1"
  by (simp_all add: sequential_def read_end_def read_start_def release_hounds_def emit_def)

lemma before_launch_events:
  "set (trace (before_launch en d opts)) \<subseteq> during Options \<union> during Prepare"
proof -
  let ?A = "during Options \<union> during Prepare"
  let ?P = "after_options en d opts"
  have 0: "adds ?A (init d) ?P"
    unfolding after_options_def by (rule adds_mono [OF adds_parse_options]) simp
  have 1: "adds ?A (init d) (guard sanity_check ?P)"
    by (rule adds_then [OF 0 adds_guard]) (rule adds_mono [OF adds_sanity_check], simp)
  have 2: "adds ?A (init d) (guard (allocate en) (guard sanity_check ?P))"
    by (rule adds_then [OF 1 adds_guard]) (rule adds_mono [OF adds_allocate], simp)
  have 3: "adds ?A (init d) (guard stdout_check (guard (allocate en) (guard sanity_check ?P)))"
    by (rule adds_then [OF 2 adds_guard]) (rule adds_mono [OF adds_stdout_check], simp)
  have "adds ?A (init d) (before_launch en d opts)"
    unfolding before_launch_def
    by (rule adds_then [OF 3 adds_guard]) (rule adds_mono [OF adds_calibrate], simp)
  then show ?thesis
    by (auto simp: adds_def init_def)
qed

lemma main_after_launch:
  "\<exists>r. trace (main en d opts) = trace (launched en d opts) @ r \<and> set r \<subseteq> during Report"
proof -
  let ?g = "launched en d opts"
  have 1: "adds (during Report) ?g (guard (report en) ?g)"
    by (rule adds_guard) (rule adds_report)
  have "adds (during Report) (guard (report en) ?g) (main en d opts)"
    by (simp add: main_def launched_def guard_def adds_def)
  with 1 have "adds (during Report) ?g (main en d opts)" by (rule adds_then)
  then show ?thesis by (simp add: adds_def)
qed

lemma launch_part_main:
  assumes "trace (launched en d opts) = trace (before_launch en d opts) @ l"
    and "set l \<subseteq> during Launch"
  shows "launch_part (trace (main en d opts)) = l"
proof -
  obtain r where r: "trace (main en d opts) = trace (launched en d opts) @ r"
      "set r \<subseteq> during Report"
    using main_after_launch by blast
  have b: "filter (\<lambda>e. phase_of e = Launch) (trace (before_launch en d opts)) = []"
    using before_launch_events [of en d opts] by (auto simp: filter_empty_conv during_def)
  have f: "filter (\<lambda>e. phase_of e = Launch) r = []"
    using r(2) by (auto simp: filter_empty_conv during_def)
  have "filter (\<lambda>e. phase_of e = Launch) l = l"
    using assms(2) by (auto simp: filter_id_conv during_def)
  then show ?thesis
    by (simp add: launch_part_def r(1) assms(1) b f)
qed

lemma flags_main:
  "use_threads (main en d opts) = use_threads (before_launch en d opts)"
  "numthreads (main en d opts) = numthreads (before_launch en d opts)"
  using params_main [of en d opts] by (simp_all add: params_def)

lemma hounds_report [simp]: "hounds (report en s) = hounds s"
proof -
  have l: "hounds (print_line en d base k s) = hounds s" for d base k s
    by (simp add: print_line_def split: option.splits)
  have p: "hounds (print_samples en d b idx s) = hounds s" for d b idx s
    by (simp add: print_samples_def hounds_for_each l split: option.splits)
  have f: "hounds (report_file en j s) = hounds s" for j s
    by (simp add: report_file_def Let_def guard_def p)
  show ?thesis
    by (simp add: report_def Let_def p hounds_for_each f emit_def)
qed

lemma hounds_main: "hounds (main en d opts) = hounds (launched en d opts)"
  by (simp add: main_def launched_def guard_def finish_def)

lemma hounds_handle_option [simp]: "hounds (handle_option en opt s) = hounds s"
  by (simp add: handle_option_def with_optarg_def with_atoi_def set_interval_def usage_def
      stop_def emit_def Let_def split: option.splits)

lemma hounds_parse_options [simp]: "hounds (parse_options en opts s) = hounds s"
  by (induction opts arbitrary: s) simp_all

lemma hounds_before_launch: "hounds (before_launch en d opts) = hounds0 d"
  by (simp add: before_launch_def after_options_def guard_def sanity_check_def allocate_def
      stdout_check_def calibrate_def emit_def stop_def Let_def init_def)

lemma launched_cases:
  "halt (before_launch en d opts) = Some oc \<Longrightarrow> launched en d opts = before_launch en d opts"
  "halt (before_launch en d opts) = None \<Longrightarrow> use_threads (before_launch en d opts) = 1 \<Longrightarrow>
     launched en d opts = threaded en (before_launch en d opts)"
  "halt (before_launch en d opts) = None \<Longrightarrow> use_threads (before_launch en d opts) \<noteq> 1 \<Longrightarrow>
     launched en d opts = sequential en (before_launch en d opts)"
  by (simp_all add: launched_def coordinate_def)

lemma main_halted_launch:
  "halt (launched en d opts) = Some oc \<Longrightarrow> main en d opts = launched en d opts"
  by (simp add: main_def launched_def)

lemma handle_option_threads:
  "fst opt \<noteq> CHR ''t'' \<Longrightarrow>
   numthreads (handle_option en opt s) = numthreads s
   \<and> use_threads (handle_option en opt s) = use_threads s"
  by (simp add: handle_option_def with_optarg_def with_atoi_def set_interval_def usage_def
      stop_def emit_def Let_def split: option.splits)

lemma parse_options_threads:
  "\<forall>opt\<in>set opts. fst opt \<noteq> CHR ''t'' \<Longrightarrow>
   numthreads (parse_options en opts s) = numthreads s
   \<and> use_threads (parse_options en opts s) = use_threads s"
  by (induction opts arbitrary: s) (simp_all add: handle_option_threads)

lemma use_threads_before_launch:
  "use_threads (before_launch en d opts) = use_threads (after_options en d opts)"
  by (simp add: before_launch_def guard_def sanity_check_def allocate_def
      stdout_check_def calibrate_def emit_def stop_def Let_def)

lemma launch_head_events:
  "set (launch_head nt) \<subseteq> during Launch" "Read_end \<notin> set (launch_head nt)"
  "Write_hounds v \<notin> set (launch_head nt)" "Pthread_create i \<notin> set (launch_head nt)"
  by (simp_all add: launch_head_def during_def)

lemma launch_not_released:
  assumes "\<not> releases en d opts"
  shows "\<exists>l. trace (launched en d opts) = trace (before_launch en d opts) @ l
           \<and> set l \<subseteq> before_release"
    and "hounds (launched en d opts) = hounds0 d"
    and "halt (launched en d opts) \<noteq> None"
proof -
  let ?B = "before_launch en d opts"
  have "(\<exists>l. trace (launched en d opts) = trace ?B @ l \<and> set l \<subseteq> before_release)
      \<and> hounds (launched en d opts) = hounds0 d \<and> halt (launched en d opts) \<noteq> None"
  proof (cases "halt ?B")
    case (Some oc)
    then show ?thesis
      by (simp add: launched_cases hounds_before_launch)
  next
    case None
    with assms have u: "use_threads ?B = 1" and c: "\<not> creates_ok en (numthreads ?B)"
      by (simp_all add: releases_def)
    have l: "launched en d opts = threaded en ?B"
      using None u by (simp add: launched_cases)
    show ?thesis
      using threaded_not_released [OF None c]
      by (simp add: l hounds_before_launch adds_def)
  qed
  then show "\<exists>l. trace (launched en d opts) = trace ?B @ l \<and> set l \<subseteq> before_release"
    "hounds (launched en d opts) = hounds0 d" "halt (launched en d opts) \<noteq> None"
    by simp_all
qed

lemma launch_released:
  assumes "releases en d opts"
  shows "\<exists>a b. release_shape en d opts a b"
    and "hounds (launched en d opts) = 1"
proof -
  let ?B = "before_launch en d opts"
  let ?nt = "numthreads ?B"
  let ?cs = "map Pthread_create [0..<nat ?nt]"
  let ?js = "map Pthread_join [0..<nat ?nt]"
  have B: "halt ?B = None"
    using assms by (simp add: releases_def)
  have "(\<exists>a b. trace (launched en d opts) = trace ?B @ a @ Write_hounds 1 # b
           \<and> set a \<subseteq> during Launch \<and> set b \<subseteq> during Launch
           \<and> (\<forall>v. Write_hounds v \<notin> set a \<and> Write_hounds v \<notin> set b)
           \<and> (\<forall>i. Pthread_create i \<notin> set b)
           \<and> (use_threads ?B = 1 \<longrightarrow> a = launch_head ?nt @ ?cs)
           \<and> (halt (launched en d opts) = None \<longrightarrow>
                (if use_threads ?B = 1 then b = ?js @ [Read_cycleend, Read_end]
                 else a = [] \<and> b = [Read_start, Read_cyclestart, Ftq_core 0, Read_cycleend, Read_end]))
           \<and> (halt (launched en d opts) \<noteq> None \<longrightarrow> Read_end \<notin> set b))
        \<and> hounds (launched en d opts) = 1"
  proof (cases "use_threads ?B = 1")
    case False
    have l: "launched en d opts = sequential en ?B"
      using B False by (simp add: launched_cases)
    have "trace (launched en d opts) = trace ?B @ [] @ Write_hounds 1 #
        [Read_start, Read_cyclestart, Ftq_core 0, Read_cycleend, Read_end]"
      by (simp add: l sequential_run)
    moreover have "halt (launched en d opts) = None"
      by (simp add: l sequential_run B)
    moreover have "set [Read_start, Read_cyclestart, Ftq_core 0, Read_cycleend, Read_end]
        \<subseteq> during Launch"
      by (simp add: during_def)
    ultimately show ?thesis
      using False by (intro conjI exI [of _ "[]"]
          exI [of _ "[Read_start, Read_cyclestart, Ftq_core 0, Read_cycleend, Read_end]"])
        (simp_all add: l sequential_run)
  next
    case True
    with assms have c: "creates_ok en ?nt"
      by (simp add: releases_def)
    have l: "launched en d opts = threaded en ?B"
      using B True by (simp add: launched_cases)
    have a: "set (launch_head ?nt @ ?cs) \<subseteq> during Launch"
      using launch_head_events(1) [of ?nt] by (auto simp: during_def)
    have aw: "Write_hounds v \<notin> set (launch_head ?nt @ ?cs)" for v
      using launch_head_events(3) [of v ?nt] by auto
    show ?thesis
    proof (cases "joins_ok en ?nt")
      case j: True
      have t: "trace (launched en d opts) =
          trace ?B @ (launch_head ?nt @ ?cs) @ Write_hounds 1 # (?js @ [Read_cycleend, Read_end])"
        using threaded_released(3) [OF B c j] by (simp add: l)
      have h: "halt (launched en d opts) = None"
        using threaded_released(2) [OF B c j] by (simp add: l)
      have b: "set (?js @ [Read_cycleend, Read_end]) \<subseteq> during Launch"
        by (auto simp: during_def)
      have bw: "Write_hounds v \<notin> set (?js @ [Read_cycleend, Read_end])" for v
        by auto
      have bc: "Pthread_create i \<notin> set (?js @ [Read_cycleend, Read_end])" for i
        by auto
      show ?thesis
        using t h a b aw bw bc True threaded_released(1) [OF B c]
        by (intro conjI exI [of _ "launch_head ?nt @ ?cs"]
            exI [of _ "?js @ [Read_cycleend, Read_end]"]) (simp_all add: l)
    next
      case j: False
      obtain js where js: "trace (threaded en ?B) =
          trace ?B @ launch_head ?nt @ ?cs @ [Write_hounds 1] @ js"
          "set js \<subseteq> range Pthread_join \<union> {Err_join}"
        using threaded_released(5) [OF B c j] by blast
      have t: "trace (launched en d opts) = trace ?B @ (launch_head ?nt @ ?cs) @ Write_hounds 1 # js"
        by (simp add: l js(1))
      have h: "halt (launched en d opts) = Some Exit_failure"
        using threaded_released(4) [OF B c j] by (simp add: l)
      have b: "set js \<subseteq> during Launch"
        using js(2) by (auto simp: during_def)
      have bw: "Write_hounds v \<notin> set js" for v
        using js(2) by auto
      have bc: "Pthread_create i \<notin> set js" for i
        using js(2) by auto
      have be: "Read_end \<notin> set js"
        using js(2) by auto
      show ?thesis
        using t h a b aw bw bc be True threaded_released(1) [OF B c]
        by (intro conjI exI [of _ "launch_head ?nt @ ?cs"] exI [of _ js]) (simp_all add: l)
    qed
  qed
  then show "\<exists>a b. release_shape en d opts a b" "hounds (launched en d opts) = 1"
    unfolding release_shape_def by simp_all
qed

lemma halted_before_calibration:
  assumes "halt (after_options en d opts) = None"
    and "halt (before_launch en d opts) = Some oc"
  shows "Compute_ticksperns \<notin> set (trace (main en d opts))"
proof -
  have "halt (before_calibration en d opts) = Some oc"
    using assms(2) by (simp add: halt_before_launch)
  then have "before_launch en d opts = before_calibration en d opts"
    by (simp add: before_launch_calibration guard_def)
  then have "trace (main en d opts) = trace (before_calibration en d opts)"
    using main_halted_early [OF assms(2)] by simp
  then show ?thesis
    using before_calibration_events [OF assms(1)] by auto
qed

lemma before_launch_no_launch_event:
  "phase_of e = Launch \<Longrightarrow> e \<notin> set (trace (before_launch en d opts))"
  using before_launch_events [of en d opts] by (auto simp: during_def)

lemma main_trace_launched:
  "\<exists>r. trace (main en d opts) = trace (launched en d opts) @ r
       \<and> (\<forall>e. phase_of e = Launch \<longrightarrow> e \<notin> set r)"
proof -
  obtain r where r: "trace (main en d opts) = trace (launched en d opts) @ r"
      "set r \<subseteq> during Report"
    using main_after_launch by blast
  have "\<forall>e. phase_of e = Launch \<longrightarrow> e \<notin> set r"
    using r(2) by (auto simp: during_def)
  with r(1) show ?thesis by blast
qed

lemma sequential_launched:
  "halt (before_launch en d opts) = None \<Longrightarrow> use_threads (before_launch en d opts) \<noteq> 1 \<Longrightarrow>
   halt (launched en d opts) = None"
  by (simp add: launched_cases sequential_run)

lemma ends_handle_option:
  "ends {Exit_failure, Undefined Null_optarg, Undefined Atoi_out_of_range,
         Undefined Outname_overflow} s (handle_option en opt s)"
  by (simp add: ends_def handle_option_def with_optarg_def with_atoi_def set_interval_def
      usage_def Let_def split: option.splits)

lemma ends_parse_options:
  "ends {Exit_failure, Undefined Null_optarg, Undefined Atoi_out_of_range,
         Undefined Outname_overflow} s (parse_options en opts s)"
proof (induction opts arbitrary: s)
  case Nil
  show ?case by simp
next
  case (Cons opt opts)
  show ?case
  proof (cases "halt s")
    case None
    have "ends {Exit_failure, Undefined Null_optarg, Undefined Atoi_out_of_range,
         Undefined Outname_overflow} s
         (parse_options en opts (handle_option en opt s))"
      by (rule ends_then [OF ends_handle_option Cons.IH]) simp
    with None show ?thesis by simp
  next
    case (Some oc)
    then show ?thesis by simp
  qed
qed

lemma ends_allocate: "ends {Assert_abort Samples_allocated} s (allocate en s)"
  by (simp add: ends_def allocate_def Let_def)

lemma ends_sanity_check: "ends {} s (sanity_check s)"
  by (simp add: ends_def)

lemma before_launch_outcome:
  "halt (before_launch en d opts) \<noteq> Some Exit_success"
  "halt (before_launch en d opts) \<noteq> Some Pthread_exit"
proof -
  let ?H = "{Exit_failure, Undefined Null_optarg, Undefined Atoi_out_of_range,
         Undefined Outname_overflow, Assert_abort Samples_allocated}"
  let ?P = "after_options en d opts"
  have 0: "ends ?H (init d) ?P"
    unfolding after_options_def by (rule ends_mono [OF ends_parse_options]) simp
  have 1: "ends ?H (init d) (guard sanity_check ?P)"
    by (rule ends_guard [OF 0]) (rule ends_mono [OF ends_sanity_check], simp)
  have 2: "ends ?H (init d) (guard (allocate en) (guard sanity_check ?P))"
    by (rule ends_guard [OF 1]) (rule ends_mono [OF ends_allocate], simp)
  have 3: "ends ?H (init d) (guard stdout_check (guard (allocate en) (guard sanity_check ?P)))"
    by (rule ends_guard [OF 2]) (rule ends_mono [OF ends_stdout_check], simp)
  have "ends ?H (init d) (before_launch en d opts)"
    unfolding before_launch_def by (rule ends_guard [OF 3]) (rule ends_mono [OF ends_calibrate], simp)
  then have "halt (before_launch en d opts) \<in> insert None (Some ` ?H)"
    by (simp add: ends_def init_def)
  then show "halt (before_launch en d opts) \<noteq> Some Exit_success"
    "halt (before_launch en d opts) \<noteq> Some Pthread_exit"
    by auto
qed

lemma main_completes_launched:
  assumes "halt (main en d opts) = Some Exit_success \<or> halt (main en d opts) = Some Pthread_exit"
  shows "halt (launched en d opts) = None"
proof (rule ccontr)
  assume "halt (launched en d opts) \<noteq> None"
  then obtain oc where oc: "halt (launched en d opts) = Some oc" by auto
  then have m: "main en d opts = launched en d opts"
    by (rule main_halted_launch)
  show False
  proof (cases "halt (before_launch en d opts)")
    case None
    have "ends {Exit_failure, Assert_abort Threadinit_ok, Undefined Null_threads}
        (before_launch en d opts) (launched en d opts)"
      unfolding launched_def by (rule ends_guard [OF ends_refl ends_coordinate])
    with None oc assms show False
      by (auto simp: ends_def m)
  next
    case (Some oc')
    then have "launched en d opts = before_launch en d opts"
      by (simp add: launched_cases)
    with assms before_launch_outcome [of en d opts] show False
      by (simp add: m)
  qed
qed

lemma adds_for_each_inv:
  assumes "\<And>i s. i \<in> set is \<Longrightarrow> I s \<Longrightarrow> adds A s (body i s) \<and> I (body i s)" and "I s"
  shows "adds A s (for_each body is s) \<and> I (for_each body is s)"
  using assms
proof (induction "is" arbitrary: s)
  case Nil
  then show ?case by simp
next
  case (Cons i "is")
  show ?case
  proof (cases "halt s")
    case None
    have 1: "adds A s (body i s)" "I (body i s)"
      using Cons.prems(1) [of i s] Cons.prems(2) by simp_all
    have 2: "adds A (body i s) (for_each body is (body i s)) \<and> I (for_each body is (body i s))"
      by (rule Cons.IH) (use Cons.prems(1) 1(2) in auto)
    show ?thesis
      using None 1 2 adds_then by auto
  next
    case (Some oc)
    then show ?thesis using Cons.prems(2) by simp
  qed
qed

lemma nspercycle_print_line [simp]: "nspercycle (print_line en d base k s) = nspercycle s"
  by (simp add: print_line_def split: option.splits)

lemma adds_print_line_ok:
  "adds {ev. \<exists>e c. ev = Line d e c
           \<and> elapsed_ns (nspercycle s) (measured en (unat k)) base = Some e
           \<and> c = measured en (unat (k + 1))} s (print_line en d base k s)"
  by (auto simp: print_line_def adds_def sample_at_def emit_def stop_def split: option.splits if_splits)

lemma adds_print_samples_ok:
  "adds (lines_of en (nspercycle s) d b idx (unat (numsamples s))) s (print_samples en d b idx s)"
proof (cases "sample_at en s (unat b)")
  case None
  then show ?thesis by (simp add: print_samples_def adds_stop)
next
  case (Some base)
  then have base: "base = measured en (unat b)"
    by (simp add: sample_at_def split: if_splits)
  let ?A = "lines_of en (nspercycle s) d b idx (unat (numsamples s))"
  let ?I = "\<lambda>t :: state. nspercycle t = nspercycle s"
  have "adds ?A s (for_each (\<lambda>i. print_line en d base (idx i)) [0..<unat (numsamples s)] s)
      \<and> ?I (for_each (\<lambda>i. print_line en d base (idx i)) [0..<unat (numsamples s)] s)"
  proof (rule adds_for_each_inv [where I = ?I])
    fix i and t :: state
    assume i: "i \<in> set [0..<unat (numsamples s)]" and t: "nspercycle t = nspercycle s"
    have "adds ?A t (print_line en d base (idx i) t)"
      by (rule adds_mono [OF adds_print_line_ok]) (use i t in \<open>auto simp: lines_of_def base\<close>)
    then show "adds ?A t (print_line en d base (idx i) t)
        \<and> nspercycle (print_line en d base (idx i) t) = nspercycle s"
      using t by simp
  qed simp
  with Some show ?thesis by (simp add: print_samples_def)
qed

lemma nspercycle_print_samples [simp]: "nspercycle (print_samples en d b idx s) = nspercycle s"
proof -
  have "nspercycle (for_each (\<lambda>i. print_line en d base (idx i)) is s) = nspercycle s" for base "is"
    by (induction "is" arbitrary: s) simp_all
  then show ?thesis
    by (simp add: print_samples_def split: option.splits)
qed

lemma nspercycle_report_file [simp]: "nspercycle (report_file en j s) = nspercycle s"
  by (simp add: report_file_def Let_def guard_def)

lemma numsamples_params: "params s = params t \<Longrightarrow> numsamples s = numsamples t"
  by (simp add: params_def)

lemma adds_report_file_ok:
  "adds (not_line \<union> file_lines en (nspercycle s) (numsamples s) j) s (report_file en j s)"
proof -
  let ?A = "not_line \<union> file_lines en (nspercycle s) (numsamples s) j"
  let ?s1 = "emit (Fopen (outname s) j) s"
  let ?h = "emit (Header (File j) j) ?s1"
  let ?s2 = "print_samples en (File j) (file_base (numsamples s) j)
               (file_index (numsamples s) j) ?h"
  have 1: "adds ?A s ?s1" by (rule adds_emit) (simp_all add: not_line_def)
  have h: "adds ?A s ?h" by (rule adds_emit [OF _ 1]) (simp add: not_line_def)
  have n: "numsamples ?h = numsamples s" "nspercycle ?h = nspercycle s"
    by (simp_all add: emit_def)
  have "adds (file_lines en (nspercycle s) (numsamples s) j) ?h ?s2"
    using adds_print_samples_ok [of en ?h "File j" "file_base (numsamples s) j"
        "file_index (numsamples s) j"]
    by (simp add: file_lines_def n)
  then have 2: "adds ?A s ?s2"
    using adds_then [OF h] adds_mono by blast
  have g: "adds ?A t (emit (Fclose j) t)" for t
    by (rule adds_emit) (simp_all add: not_line_def)
  have 3: "adds ?A s (guard (emit (Fclose j)) ?s2)"
    by (rule adds_then [OF 2 adds_guard]) (rule g)
  have a: "adds ?A s (stop oc (emit Perror_fopen ?s1))" for oc
    by (rule adds_stop, rule adds_emit [OF _ 1]) (simp add: not_line_def)
  show ?thesis
    using 3 a by (simp add: report_file_def Let_def)
qed

lemma adds_report_ok:
  "adds (not_line \<union> report_lines en
           (ns_per_cycle (end_ns s - start s) (cycleend s - cyclestart s))
           (numsamples s) (numthreads s) (use_stdout s)) s (report en s)"
proof -
  let ?npc = "ns_per_cycle (end_ns s - start s) (cycleend s - cyclestart s)"
  let ?L = "report_lines en ?npc (numsamples s) (numthreads s) (use_stdout s)"
  let ?A = "not_line \<union> ?L"
  let ?s1 = "(emit Stats s)\<lparr>nspercycle := ?npc\<rparr>"
  have 0: "adds ?A s (emit Stats s)" by (rule adds_emit) (simp_all add: not_line_def)
  have 1: "adds ?A s ?s1" by (rule adds_same_trace [OF 0]) (simp add: emit_def)
  have f1: "nspercycle ?s1 = ?npc" "numsamples ?s1 = numsamples s"
    by (simp_all add: emit_def)
  show ?thesis
  proof (cases "use_stdout s = 1")
    case True
    let ?h = "emit (Header Stdout 0) ?s1"
    have h: "adds ?A s ?h"
      by (rule adds_emit [OF _ 1]) (simp add: not_line_def)
    have fh: "nspercycle ?h = ?npc" "numsamples ?h = numsamples s"
      by (simp_all add: emit_def)
    have "adds (lines_of en ?npc Stdout 0 stdout_index (unat (numsamples s))) ?h
        (print_samples en Stdout 0 stdout_index ?h)"
      using adds_print_samples_ok [of en ?h Stdout 0 stdout_index] by (simp add: fh)
    then have "adds ?A ?h (print_samples en Stdout 0 stdout_index ?h)"
      by (rule adds_mono) (simp add: report_lines_def True)
    with h have "adds ?A s (print_samples en Stdout 0 stdout_index ?h)"
      by (rule adds_then)
    with True show ?thesis by (simp add: report_def Let_def)
  next
    case False
    let ?I = "\<lambda>t :: state. nspercycle t = ?npc \<and> numsamples t = numsamples s"
    have "adds ?A ?s1 (for_each (report_file en) [0..<nat (numthreads s)] ?s1)
        \<and> ?I (for_each (report_file en) [0..<nat (numthreads s)] ?s1)"
    proof (rule adds_for_each_inv [where I = ?I])
      fix j and t :: state
      assume j: "j \<in> set [0..<nat (numthreads s)]" and t: "?I t"
      have "adds (not_line \<union> file_lines en ?npc (numsamples s) j) t (report_file en j t)"
        using adds_report_file_ok [of en t j] t by simp
      then have "adds ?A t (report_file en j t)"
        by (rule adds_mono) (use j False in \<open>auto simp: report_lines_def\<close>)
      moreover have "numsamples (report_file en j t) = numsamples t"
        by (rule numsamples_params) simp
      ultimately show "adds ?A t (report_file en j t) \<and> ?I (report_file en j t)"
        using t by simp
    qed (simp add: emit_def)
    then have "adds ?A s (for_each (report_file en) [0..<nat (numthreads s)] ?s1)"
      using adds_then [OF 1] by blast
    with False show ?thesis by (simp add: report_def Let_def)
  qed
qed

lemma file_index_word: "file_index n j i = word_of_nat (2 * (j * unat n + i))"
proof -
  have "(of_nat j * n * 2 + of_nat (i * 2) :: ulong) = of_nat j * of_nat (unat n) * 2 + of_nat (i * 2)"
    by simp
  also have "\<dots> = of_nat (2 * (j * unat n + i))"
    by (simp only: of_nat_mult of_nat_add of_nat_numeral) (simp add: algebra_simps)
  finally show ?thesis by (simp only: file_index_def)
qed

lemma file_base_word: "file_base n j = word_of_nat (2 * (j * unat n))"
proof -
  have "(n * of_nat j * 2 :: ulong) = of_nat (unat n) * of_nat j * 2"
    by simp
  also have "\<dots> = of_nat (2 * (j * unat n))"
    by (simp only: of_nat_mult of_nat_add of_nat_numeral) (simp add: algebra_simps)
  finally show ?thesis by (simp only: file_base_def)
qed

lemma slice_bound:
  assumes "j < 2147483648" and "unat (n :: ulong) \<le> 2000000" and "i \<le> unat n"
  shows "2 * (j * unat n + i) + 1 < (2 :: nat) ^ 64"
proof -
  have "j * unat n \<le> 2147483648 * 2000000"
    using assms(1,2) by (intro mult_le_mono) simp_all
  then show ?thesis using assms(2,3) by simp
qed

lemma file_index_nat:
  assumes "j < 2147483648" and "unat n \<le> 2000000" and "i < unat n"
  shows "unat (file_index n j i) = 2 * (j * unat n + i)"
    and "unat (file_index n j i + 1) = 2 * (j * unat n + i) + 1"
proof -
  have b: "2 * (j * unat n + i) + 1 < (2 :: nat) ^ 64"
    using slice_bound [OF assms(1,2), of i] assms(3) by simp
  then show "unat (file_index n j i) = 2 * (j * unat n + i)"
    unfolding file_index_word by (intro of_nat_inverse [OF refl]) simp
  have "file_index n j i + 1 = word_of_nat (2 * (j * unat n + i) + 1)"
    unfolding file_index_word by (simp only: of_nat_add of_nat_1)
  then show "unat (file_index n j i + 1) = 2 * (j * unat n + i) + 1"
    using b by (intro of_nat_inverse) simp_all
qed

lemma file_base_nat:
  assumes "j < 2147483648" and "unat n \<le> 2000000"
  shows "unat (file_base n j) = 2 * (j * unat n)"
proof -
  have "2 * (j * unat n) < (2 :: nat) ^ 64"
    using slice_bound [OF assms, of 0] by simp
  then show ?thesis
    unfolding file_base_word by (intro of_nat_inverse [OF refl]) simp
qed

lemma stdout_index_nat:
  assumes "unat (n :: ulong) \<le> 2000000" and "i < unat n"
  shows "unat (stdout_index i) = 2 * i" and "unat (stdout_index i + 1) = 2 * i + 1"
proof -
  have b: "2 * i + 1 < (2 :: nat) ^ 64"
    using assms by simp
  then show "unat (stdout_index i) = 2 * i"
    unfolding stdout_index_def by (intro of_nat_inverse) (simp_all add: mult.commute)
  have "stdout_index i + 1 = word_of_nat (2 * i + 1)"
    unfolding stdout_index_def by (simp only: of_nat_add of_nat_1 mult.commute)
  then show "unat (stdout_index i + 1) = 2 * i + 1"
    using b by (intro of_nat_inverse) simp_all
qed

lemma starts_for_each:
  "(\<And>i s. starts (body i s) = starts s) \<Longrightarrow> starts (for_each body is s) = starts s"
  by (induction "is" arbitrary: s) simp_all

lemma starts_simps [simp]:
  "starts (create_thread en i s) = starts s"
  "starts (join_thread en i s) = starts s"
  "starts (release_hounds s) = starts s"
  "starts (read_start en s) = (nsec en 0, getticks en 0)"
  by (simp_all add: starts_def create_thread_def join_thread_def release_hounds_def
      read_start_def emit_def stop_def Let_def)

lemma read_end_clocks:
  "starts (read_end en s) = starts s" "end_ns (read_end en s) = nsec en 1"
  "cycleend (read_end en s) = getticks en 1"
  by (simp_all add: starts_def read_end_def emit_def)

lemma halt_guard_None: "halt (guard f s) = None \<Longrightarrow> halt s = None"
  by (cases "halt s") simp_all

lemma threaded_clocks:
  assumes "halt (threaded en s) = None"
  shows "starts (threaded en s) = (nsec en 0, getticks en 0)
       \<and> end_ns (threaded en s) = nsec en 1 \<and> cycleend (threaded en s) = getticks en 1"
proof -
  let ?n = "[0..<nat (numthreads s)]"
  let ?s2 = "read_start en (emit Memset_threads
               (emit Malloc_threads (emit (Threadinit (numthreads s)) s)))"
  let ?s3 = "for_each (create_thread en) ?n ?s2"
  let ?s4 = "guard release_hounds ?s3"
  let ?s5 = "guard (for_each (join_thread en) ?n) ?s4"
  have thr: "threaded en s = guard (read_end en) ?s5"
    using assms by (simp add: threaded_def Let_def split: if_splits)
  have 5: "halt ?s5 = None"
    using assms unfolding thr by (rule halt_guard_None)
  have 4: "halt ?s4 = None"
    using 5 by (rule halt_guard_None)
  have 3: "halt ?s3 = None"
    using 4 by (rule halt_guard_None)
  have "starts ?s5 = starts ?s2"
    using 3 4 by (simp add: starts_for_each)
  then have "starts ?s5 = (nsec en 0, getticks en 0)"
    by simp
  then show ?thesis
    using 5 by (simp add: thr read_end_clocks)
qed

lemma sequential_clocks:
  "starts (sequential en s) = (nsec en 0, getticks en 0)
   \<and> end_ns (sequential en s) = nsec en 1 \<and> cycleend (sequential en s) = getticks en 1"
  by (simp add: sequential_def starts_def read_end_def read_start_def release_hounds_def emit_def)

lemma launched_clocks:
  assumes "halt (launched en d opts) = None"
  shows "start (launched en d opts) = nsec en 0" "cyclestart (launched en d opts) = getticks en 0"
    "end_ns (launched en d opts) = nsec en 1" "cycleend (launched en d opts) = getticks en 1"
proof -
  let ?B = "before_launch en d opts"
  have B: "halt ?B = None"
    using assms unfolding launched_def by (rule halt_guard_None)
  have "starts (launched en d opts) = (nsec en 0, getticks en 0)
      \<and> end_ns (launched en d opts) = nsec en 1 \<and> cycleend (launched en d opts) = getticks en 1"
  proof (cases "use_threads ?B = 1")
    case True
    then have l: "launched en d opts = threaded en ?B"
      using B by (simp add: launched_cases)
    show ?thesis
      using assms unfolding l by (rule threaded_clocks)
  next
    case False
    then have l: "launched en d opts = sequential en ?B"
      using B by (simp add: launched_cases)
    show ?thesis
      unfolding l by (rule sequential_clocks)
  qed
  then show "start (launched en d opts) = nsec en 0"
    "cyclestart (launched en d opts) = getticks en 0"
    "end_ns (launched en d opts) = nsec en 1" "cycleend (launched en d opts) = getticks en 1"
    by (simp_all add: starts_def)
qed

lemma handle_option_numthreads_range:
  "numthreads s \<le> INT_MAX \<Longrightarrow> numthreads (handle_option en opt s) \<le> INT_MAX"
  by (auto simp: handle_option_def with_optarg_def with_atoi_def set_interval_def usage_def
      stop_def emit_def Let_def atoi_def split: option.splits if_splits)

lemma parse_options_numthreads_range:
  "numthreads s \<le> INT_MAX \<Longrightarrow> numthreads (parse_options en opts s) \<le> INT_MAX"
  by (induction opts arbitrary: s) (simp_all add: handle_option_numthreads_range)

lemma numthreads_range: "numthreads (main en d opts) \<le> INT_MAX"
  using parse_options_numthreads_range [of "init d" en opts]
  by (simp add: numthreads_main after_options_def init_def INT_MAX_def)

lemma numsamples_range:
  assumes "halt (before_launch en d opts) = None"
  shows "unat (numsamples (main en d opts)) \<le> 2000000"
proof -
  have P: "halt (after_options en d opts) = None"
  proof (rule ccontr)
    assume "halt (after_options en d opts) \<noteq> None"
    then obtain oc where "halt (after_options en d opts) = Some oc" by auto
    then have "before_launch en d opts = after_options en d opts"
      by (simp add: before_launch_def)
    with assms \<open>halt (after_options en d opts) \<noteq> None\<close> show False by simp
  qed
  have "numsamples (main en d opts) \<le> word_of_int MAX_SAMPLES"
    using P by (simp add: numsamples_main numsamples_before_launch numsamples_sanity_check)
  then have "unat (numsamples (main en d opts)) \<le> unat (word_of_int MAX_SAMPLES :: ulong)"
    by (simp add: word_le_nat_alt)
  then show ?thesis
    by (simp add: MAX_SAMPLES_def)
qed

lemma launched_events:
  "set (trace (launched en d opts)) \<subseteq> during Options \<union> during Prepare \<union> during Launch"
proof -
  have "adds (during Launch) (before_launch en d opts) (launched en d opts)"
    unfolding launched_def by (rule adds_guard) (rule adds_coordinate)
  then show ?thesis
    using before_launch_events [of en d opts] by (auto simp: adds_def)
qed

lemma params_launched: "params (launched en d opts) = params (before_launch en d opts)"
  by (simp add: launched_def params_guard)

lemma main_reported:
  assumes "halt (launched en d opts) = None"
  shows "trace (main en d opts) = trace (report en (launched en d opts))"
  using assms by (simp add: main_def launched_def guard_def)

lemma line_in_report:
  assumes "Line dst e c \<in> set (trace (main en d opts))"
  shows "halt (launched en d opts) = None"
    and "Line dst e c \<in> report_lines en
           (ns_per_cycle (nsec en 1 - nsec en 0) (getticks en 1 - getticks en 0))
           (numsamples (main en d opts)) (numthreads (main en d opts))
           (use_stdout (main en d opts))"
proof -
  let ?G = "launched en d opts"
  have nl: "Line dst e c \<notin> set (trace ?G)"
    using launched_events [of en d opts] by (auto simp: during_def)
  show h: "halt ?G = None"
  proof (rule ccontr)
    assume "halt ?G \<noteq> None"
    then obtain oc where "halt ?G = Some oc" by auto
    then have "main en d opts = ?G" by (rule main_halted_launch)
    with assms nl show False by simp
  qed
  let ?npc = "ns_per_cycle (end_ns ?G - start ?G) (cycleend ?G - cyclestart ?G)"
  obtain es where es: "trace (report en ?G) = trace ?G @ es"
      "set es \<subseteq> not_line \<union> report_lines en ?npc (numsamples ?G) (numthreads ?G) (use_stdout ?G)"
    using adds_report_ok [of en ?G] by (auto simp: adds_def)
  have "Line dst e c \<in> set es"
    using assms nl by (simp add: main_reported [OF h] es(1))
  with es(2) have "Line dst e c \<in> report_lines en ?npc (numsamples ?G) (numthreads ?G) (use_stdout ?G)"
    by (auto simp: not_line_def)
  moreover have "params (main en d opts) = params ?G"
    by (simp add: params_main params_launched)
  then have "numsamples (main en d opts) = numsamples ?G"
      "numthreads (main en d opts) = numthreads ?G" "use_stdout (main en d opts) = use_stdout ?G"
    by (simp_all add: params_def)
  ultimately show "Line dst e c \<in> report_lines en
           (ns_per_cycle (nsec en 1 - nsec en 0) (getticks en 1 - getticks en 0))
           (numsamples (main en d opts)) (numthreads (main en d opts))
           (use_stdout (main en d opts))"
    by (simp add: launched_clocks [OF h])
qed

lemma launch_part_launched:
  "launch_part (trace (main en d opts)) = launch_part (trace (launched en d opts))"
proof -
  obtain r where r: "trace (main en d opts) = trace (launched en d opts) @ r"
      "\<forall>e. phase_of e = Launch \<longrightarrow> e \<notin> set r"
    using main_trace_launched by blast
  have "filter (\<lambda>e. phase_of e = Launch) r = []"
    using r(2) by (auto simp: filter_empty_conv)
  then show ?thesis
    by (simp add: launch_part_def r(1))
qed

lemma launched_in_main: "e \<in> set (trace (launched en d opts)) \<Longrightarrow> e \<in> set (trace (main en d opts))"
  using main_trace_launched [of en d opts] by auto


lemmas launch_eval = launched_def launch_part_def run_eval

lemma run_inline:
  "halt (launched env0 startup0 [(CHR ''n'', Some ''2'')]) = None"
  "trace (launched env0 startup0 [(CHR ''n'', Some ''2'')]) =
     [Mmap 32, Memset_samples 32, Compute_ticksperns, Write_hounds 1, Read_start,
      Read_cyclestart, Ftq_core 0, Read_cycleend, Read_end]"
  by (simp_all add: launch_eval)

lemma run_two_threads:
  "halt (launched env0 startup0 [(CHR ''t'', Some ''2''), (CHR ''n'', Some ''2'')]) = None"
  "trace (launched env0 startup0 [(CHR ''t'', Some ''2''), (CHR ''n'', Some ''2'')]) =
     [Mmap 64, Memset_samples 64, Compute_ticksperns, Threadinit 2, Malloc_threads,
      Memset_threads, Read_start, Read_cyclestart, Pthread_create 0, Pthread_create 1,
      Write_hounds 1, Pthread_join 0, Pthread_join 1, Read_cycleend, Read_end]"
  by (simp_all add: launch_eval upt_rec)

lemma run_one_thread:
  "numthreads (before_launch env0 startup0 [(CHR ''t'', Some ''1''), (CHR ''n'', Some ''2'')]) = 1"
  "trace (launched env0 startup0 [(CHR ''t'', Some ''1''), (CHR ''n'', Some ''2'')]) =
     [Mmap 32, Memset_samples 32, Compute_ticksperns, Threadinit 1, Malloc_threads,
      Memset_threads, Read_start, Read_cyclestart, Pthread_create 0,
      Write_hounds 1, Pthread_join 0, Read_cycleend, Read_end]"
  by (simp_all add: launch_eval upt_rec)

lemma run_rejected:
  "halt (before_launch env0 startup0
     [(CHR ''s'', None), (CHR ''t'', Some ''2''), (CHR ''n'', Some ''2'')]) = Some Exit_failure"
  "trace (before_launch env0 startup0
     [(CHR ''s'', None), (CHR ''t'', Some ''2''), (CHR ''n'', Some ''2'')]) =
     [Mmap 64, Memset_samples 64, Err_stdout]"
  by (simp_all add: run_eval)


lemma run_create_fails:
  "halt (launched env_create_fails startup0
     [(CHR ''t'', Some ''2''), (CHR ''n'', Some ''2'')]) = Some Exit_failure"
  "trace (launched env_create_fails startup0 [(CHR ''t'', Some ''2''), (CHR ''n'', Some ''2'')]) =
     [Mmap 64, Memset_samples 64, Compute_ticksperns, Threadinit 2, Malloc_threads,
      Memset_threads, Read_start, Read_cyclestart, Pthread_create 0, Pthread_create 1,
      Err_create]"
  by (simp_all add: launch_eval env_create_fails_def upt_rec)

lemma run_help:
  "halt (after_options env0 startup0 [(CHR ''h'', None)]) = Some Exit_failure"
  "trace (after_options env0 startup0 [(CHR ''h'', None)]) = [Usage]"
  "hounds (after_options env0 startup0 [(CHR ''h'', None)]) = 0"
  by (simp_all add: run_eval)

lemma run_explicit_one:
  "ticksperns (after_options env0 startup0 [(CHR ''T'', Some ''1''), (CHR ''n'', Some ''2'')]) = Fin 1"
  "halt (after_options env0 startup0 [(CHR ''T'', Some ''1''), (CHR ''n'', Some ''2'')]) = None"
  by (simp_all add: run_eval fl_eval)

lemma run_report:
  "trace (main env0 startup0 [(CHR ''T'', Some ''1''), (CHR ''n'', Some ''2'')]) =
     [Mmap 32, Memset_samples 32, Write_hounds 1, Read_start, Read_cyclestart, Ftq_core 0,
      Read_cycleend, Read_end, Stats, Fopen ''ftq'' 0, Header (File 0) 0,
      Line (File 0) 0 7, Line (File 0) 200 9, Fclose 0]"
  by (simp add: run_eval fl_eval upt_rec)

lemma calibration_unchanged:
  "halt (after_options en d opts) = None \<Longrightarrow> ticksperns (after_options en d opts) \<noteq> Fin 0 \<Longrightarrow>
   ticksperns (main en d opts) = ticksperns (after_options en d opts)"
  by (simp add: ticksperns_main before_launch_calibration guard_def calibrate_def
      ticksperns_before_calibration)

lemma emit_interval: "emit e (s\<lparr>interval := v\<rparr>) = (emit e s)\<lparr>interval := v\<rparr>"
  by (simp add: emit_def)

lemma stop_interval: "stop oc (s\<lparr>interval := v\<rparr>) = (stop oc s)\<lparr>interval := v\<rparr>"
  by (simp add: stop_def)

lemma guard_interval:
  "(\<And>s. f (s\<lparr>interval := v\<rparr>) = (f s)\<lparr>interval := v\<rparr>) \<Longrightarrow>
   guard f (s\<lparr>interval := v\<rparr>) = (guard f s)\<lparr>interval := v\<rparr>"
  by (simp add: guard_def)

lemma for_each_interval:
  "(\<And>i s. body i (s\<lparr>interval := v\<rparr>) = (body i s)\<lparr>interval := v\<rparr>) \<Longrightarrow>
   for_each body is (s\<lparr>interval := v\<rparr>) = (for_each body is s)\<lparr>interval := v\<rparr>"
  by (induction "is" arbitrary: s) simp_all

lemma handle_option_interval:
  "fst opt \<noteq> CHR ''f'' \<Longrightarrow>
   handle_option en opt (s\<lparr>interval := v\<rparr>) = (handle_option en opt s)\<lparr>interval := v\<rparr>"
  by (simp add: handle_option_def with_optarg_def with_atoi_def usage_def
      stop_def emit_def Let_def split: option.splits)

lemma parse_options_interval:
  "\<forall>opt\<in>set opts. fst opt \<noteq> CHR ''f'' \<Longrightarrow>
   parse_options en opts (s\<lparr>interval := v\<rparr>) = (parse_options en opts s)\<lparr>interval := v\<rparr>"
  by (induction opts arbitrary: s) (simp_all add: handle_option_interval)

lemma prepare_interval:
  "sanity_check (s\<lparr>interval := v\<rparr>) = (sanity_check s)\<lparr>interval := v\<rparr>"
  "allocate en (s\<lparr>interval := v\<rparr>) = (allocate en s)\<lparr>interval := v\<rparr>"
  "stdout_check (s\<lparr>interval := v\<rparr>) = (stdout_check s)\<lparr>interval := v\<rparr>"
  "calibrate en (s\<lparr>interval := v\<rparr>) = (calibrate en s)\<lparr>interval := v\<rparr>"
  by (simp_all add: sanity_check_def allocate_def stdout_check_def calibrate_def
      emit_def stop_def Let_def)

lemma launch_steps_interval:
  "create_thread en i (s\<lparr>interval := v\<rparr>) = (create_thread en i s)\<lparr>interval := v\<rparr>"
  "join_thread en i (s\<lparr>interval := v\<rparr>) = (join_thread en i s)\<lparr>interval := v\<rparr>"
  "read_start en (s\<lparr>interval := v\<rparr>) = (read_start en s)\<lparr>interval := v\<rparr>"
  "read_end en (s\<lparr>interval := v\<rparr>) = (read_end en s)\<lparr>interval := v\<rparr>"
  "release_hounds (s\<lparr>interval := v\<rparr>) = (release_hounds s)\<lparr>interval := v\<rparr>"
  by (simp_all add: create_thread_def join_thread_def read_start_def read_end_def
      release_hounds_def emit_def stop_def Let_def)

lemma threaded_interval:
  "threaded en (s\<lparr>interval := v\<rparr>) = (threaded en s)\<lparr>interval := v\<rparr>"
proof -
  let ?n = "[0..<nat (numthreads s)]"
  have c: "for_each (create_thread en) ?n (t\<lparr>interval := v\<rparr>) =
      (for_each (create_thread en) ?n t)\<lparr>interval := v\<rparr>" for t
    by (rule for_each_interval) (rule launch_steps_interval)
  have j: "for_each (join_thread en) ?n (t\<lparr>interval := v\<rparr>) =
      (for_each (join_thread en) ?n t)\<lparr>interval := v\<rparr>" for t
    by (rule for_each_interval) (rule launch_steps_interval)
  have gr: "guard release_hounds (t\<lparr>interval := v\<rparr>) = (guard release_hounds t)\<lparr>interval := v\<rparr>" for t
    by (rule guard_interval) (rule launch_steps_interval)
  have gj: "guard (for_each (join_thread en) ?n) (t\<lparr>interval := v\<rparr>) =
      (guard (for_each (join_thread en) ?n) t)\<lparr>interval := v\<rparr>" for t
    by (rule guard_interval) (rule j)
  have ge: "guard (read_end en) (t\<lparr>interval := v\<rparr>) = (guard (read_end en) t)\<lparr>interval := v\<rparr>" for t
    by (rule guard_interval) (rule launch_steps_interval)
  show ?thesis
    by (simp add: threaded_def Let_def emit_interval stop_interval launch_steps_interval
        c gr gj ge)
qed

lemma coordinate_interval:
  "coordinate en (s\<lparr>interval := v\<rparr>) = (coordinate en s)\<lparr>interval := v\<rparr>"
  by (simp add: coordinate_def threaded_interval sequential_def launch_steps_interval emit_interval)

lemma print_line_interval:
  "print_line en d base k (s\<lparr>interval := v\<rparr>) = (print_line en d base k s)\<lparr>interval := v\<rparr>"
  by (simp add: print_line_def sample_at_def emit_interval stop_interval split: option.splits)

lemma print_samples_interval:
  "print_samples en d b idx (s\<lparr>interval := v\<rparr>) = (print_samples en d b idx s)\<lparr>interval := v\<rparr>"
proof -
  have "for_each (\<lambda>i. print_line en d base (idx i)) is (s\<lparr>interval := v\<rparr>) =
      (for_each (\<lambda>i. print_line en d base (idx i)) is s)\<lparr>interval := v\<rparr>" for base "is"
    by (rule for_each_interval) (rule print_line_interval)
  then show ?thesis
    by (simp add: print_samples_def sample_at_def stop_interval split: option.splits)
qed

lemma report_file_interval:
  "report_file en j (s\<lparr>interval := v\<rparr>) = (report_file en j s)\<lparr>interval := v\<rparr>"
proof -
  have g: "guard (emit (Fclose j)) (t\<lparr>interval := v\<rparr>) = (guard (emit (Fclose j)) t)\<lparr>interval := v\<rparr>"
    for t
    by (rule guard_interval) (rule emit_interval)
  show ?thesis
    by (simp add: report_file_def Let_def emit_interval stop_interval print_samples_interval g)
qed

lemma report_interval:
  "report en (s\<lparr>interval := v\<rparr>) = (report en s)\<lparr>interval := v\<rparr>"
proof -
  have o: "t\<lparr>interval := v, nspercycle := n\<rparr> = (t\<lparr>nspercycle := n\<rparr>)\<lparr>interval := v\<rparr>"
    for t :: state and n
    by simp
  have p: "print_samples en Stdout 0 stdout_index
        (emit (Header Stdout 0) (t\<lparr>interval := v, nspercycle := n\<rparr>)) =
      (print_samples en Stdout 0 stdout_index
        (emit (Header Stdout 0) (t\<lparr>nspercycle := n\<rparr>)))\<lparr>interval := v\<rparr>"
    for t :: state and n
    by (simp only: o emit_interval print_samples_interval)
  have f: "for_each (report_file en) js (t\<lparr>interval := v\<rparr>) =
      (for_each (report_file en) js t)\<lparr>interval := v\<rparr>" for js and t :: state
    by (rule for_each_interval) (rule report_file_interval)
  have g: "for_each (report_file en) js (t\<lparr>interval := v, nspercycle := n\<rparr>) =
      (for_each (report_file en) js (t\<lparr>nspercycle := n\<rparr>))\<lparr>interval := v\<rparr>"
    for js n and t :: state
    by (simp only: o f)
  show ?thesis
    by (simp add: report_def Let_def emit_interval p g)
qed

lemma finish_interval: "finish (s\<lparr>interval := v\<rparr>) = (finish s)\<lparr>interval := v\<rparr>"
  by (simp add: finish_def stop_interval)

lemma main_interval:
  assumes "after_options en d opts' = (after_options en d opts)\<lparr>interval := v\<rparr>"
  shows "main en d opts' = (main en d opts)\<lparr>interval := v\<rparr>"
proof -
  let ?P = "after_options en d opts"
  have 1: "guard sanity_check (?P\<lparr>interval := v\<rparr>) = (guard sanity_check ?P)\<lparr>interval := v\<rparr>"
    by (rule guard_interval) (rule prepare_interval)
  have 2: "guard (allocate en) (t\<lparr>interval := v\<rparr>) = (guard (allocate en) t)\<lparr>interval := v\<rparr>" for t
    by (rule guard_interval) (rule prepare_interval)
  have 3: "guard stdout_check (t\<lparr>interval := v\<rparr>) = (guard stdout_check t)\<lparr>interval := v\<rparr>" for t
    by (rule guard_interval) (rule prepare_interval)
  have 4: "guard (calibrate en) (t\<lparr>interval := v\<rparr>) = (guard (calibrate en) t)\<lparr>interval := v\<rparr>" for t
    by (rule guard_interval) (rule prepare_interval)
  have 5: "guard (coordinate en) (t\<lparr>interval := v\<rparr>) = (guard (coordinate en) t)\<lparr>interval := v\<rparr>" for t
    by (rule guard_interval) (rule coordinate_interval)
  have 6: "guard (report en) (t\<lparr>interval := v\<rparr>) = (guard (report en) t)\<lparr>interval := v\<rparr>" for t
    by (rule guard_interval) (rule report_interval)
  have 7: "guard finish (t\<lparr>interval := v\<rparr>) = (guard finish t)\<lparr>interval := v\<rparr>" for t
    by (rule guard_interval) (rule finish_interval)
  show ?thesis
    unfolding main_def before_launch_def assms by (simp only: 1 2 3 4 5 6 7)
qed

section \<open>The sample count\<close>

text \<open>
  C6. The sample count of the run is the minimum of the count requested (the value of
  \<^verbatim>\<open>numsamples\<close> when the option loop is left) and \<^verbatim>\<open>MAX_SAMPLES\<close>. The cap comes before the
  allocation: the trace of the run begins with the warning of the cap, when there is
  one, and then the \<^verbatim>\<open>mmap\<close> of the buffer, whose size is computed from the capped count.
\<close>

theorem sample_count_capped:
  assumes "halt (after_options en d opts) = None"
  shows "numsamples (main en d opts) =
           min (numsamples (after_options en d opts)) (word_of_int MAX_SAMPLES)
       \<and> (\<exists>rest. trace (main en d opts) =
             (if word_of_int MAX_SAMPLES < numsamples (after_options en d opts)
              then [Warn_max_samples] else [])
             @ Mmap (8 * numsamples (main en d opts) * 2 * word_of_int (numthreads (main en d opts)))
             # rest)"
proof -
  let ?P = "after_options en d opts"
  let ?S = "sanity_check ?P"
  have n: "numsamples (main en d opts) = numsamples ?S"
    using assms by (simp add: numsamples_main numsamples_before_launch)
  obtain r1 where r1: "trace (allocate en ?S) =
      trace ?S @ Mmap (8 * numsamples ?S * 2 * word_of_int (numthreads ?S)) # r1"
    using trace_allocate by blast
  obtain r2 where r2: "trace (main en d opts) = trace (allocate en ?S) @ r2"
    using adds_after_allocate [OF assms] by (auto simp: adds_def)
  have "trace (main en d opts) =
      (if word_of_int MAX_SAMPLES < numsamples ?P then [Warn_max_samples] else [])
      @ Mmap (8 * numsamples (main en d opts) * 2 * word_of_int (numthreads (main en d opts)))
      # (r1 @ r2)"
    using r1 r2 n after_options_quiet [OF assms]
    by (simp add: trace_sanity_check numthreads_main)
  then show ?thesis
    using n by (auto simp: numsamples_sanity_check)
qed

theorem sample_count_capped_witness:
  "halt (after_options env0 startup0 [(CHR ''n'', Some ''3000000'')]) = None
   \<and> numsamples (after_options env0 startup0 [(CHR ''n'', Some ''3000000'')]) = 3000000
   \<and> numsamples (main env0 startup0 [(CHR ''n'', Some ''3000000'')]) = 2000000
   \<and> (\<exists>rest. trace (main env0 startup0 [(CHR ''n'', Some ''3000000'')]) =
         Warn_max_samples # Mmap 32000000 # rest)"
proof -
  let ?opts = "[(CHR ''n'', Some ''3000000'')]"
  have h: "halt (after_options env0 startup0 ?opts) = None"
    by (simp add: run_eval)
  have n: "numsamples (after_options env0 startup0 ?opts) = 3000000"
    by (simp add: run_eval)
  have t: "numthreads (main env0 startup0 ?opts) = 1"
    by (simp add: numthreads_main) (simp add: run_eval)
  show ?thesis
    using sample_count_capped [OF h] h n t by (auto simp: MAX_SAMPLES_def)
qed

text \<open>
  C9. When the last \<^verbatim>\<open>-n\<close> option carries a negative integer \<open>v\<close>, the assignment to the
  \<^verbatim>\<open>unsigned long\<close> variable \<^verbatim>\<open>numsamples\<close> stores \<open>2\<^sup>6\<^sup>4 + v\<close>, which exceeds the maximum,
  and the sample count of the run is \<^verbatim>\<open>MAX_SAMPLES\<close>.
\<close>

theorem negative_count_becomes_maximum:
  assumes "atoi a = Some v" and "v < 0"
    and "\<forall>opt\<in>set post. fst opt \<noteq> CHR ''n''"
    and "halt (after_options en d (pre @ (CHR ''n'', Some a) # post)) = None"
  shows "uint (numsamples (after_options en d (pre @ (CHR ''n'', Some a) # post))) = 2 ^ 64 + v
       \<and> word_of_int MAX_SAMPLES < numsamples (after_options en d (pre @ (CHR ''n'', Some a) # post))
       \<and> numsamples (main en d (pre @ (CHR ''n'', Some a) # post)) = word_of_int MAX_SAMPLES"
proof -
  let ?opts = "pre @ (CHR ''n'', Some a) # post"
  have r: "INT_MIN \<le> v"
    using atoi_range [OF assms(1)] by simp
  have n: "numsamples (after_options en d ?opts) = word_of_int v"
    using assms(3,4) unfolding after_options_def by (rule parse_options_last_n [OF assms(1)])
  have gt: "word_of_int MAX_SAMPLES < numsamples (after_options en d ?opts)"
    unfolding n using r assms(2) by (rule negative_exceeds_max)
  have "numsamples (main en d ?opts) = numsamples (sanity_check (after_options en d ?opts))"
    using assms(4) by (simp add: numsamples_main numsamples_before_launch)
  also have "\<dots> = word_of_int MAX_SAMPLES"
    using gt by (simp add: sanity_check_def emit_def)
  finally show ?thesis
    using gt uint_negative_int [OF r assms(2)] by (simp add: n)
qed

theorem negative_count_becomes_maximum_witness:
  "atoi ''-5'' = Some (- 5)
   \<and> halt (after_options env0 startup0
        [(CHR ''t'', Some ''2''), (CHR ''n'', Some ''-5''), (CHR ''w'', None)]) = None
   \<and> uint (numsamples (after_options env0 startup0
        [(CHR ''t'', Some ''2''), (CHR ''n'', Some ''-5''), (CHR ''w'', None)]))
      = 18446744073709551611
   \<and> numsamples (main env0 startup0
        [(CHR ''t'', Some ''2''), (CHR ''n'', Some ''-5''), (CHR ''w'', None)]) = 2000000"
proof -
  have a: "atoi ''-5'' = Some (- 5)"
    by (simp add: run_eval)
  have p: "\<forall>opt\<in>set [(CHR ''w'', None :: string option)]. fst opt \<noteq> CHR ''n''"
    by simp
  have h: "halt (after_options env0 startup0
      ([(CHR ''t'', Some ''2'')] @ (CHR ''n'', Some ''-5'') # [(CHR ''w'', None)])) = None"
    by (simp add: run_eval)
  show ?thesis
    using negative_count_becomes_maximum [OF a _ p h] a h by (simp add: MAX_SAMPLES_def)
qed

section \<open>A frequency of zero\<close>

text \<open>
  C10. When the argument of \<^verbatim>\<open>-f\<close> is a string that \<open>atoi\<close> reads as 0, the quotient
  \<^verbatim>\<open>1e9 / atoi(optarg)\<close> is formed with the divisor zero: it is the infinity of the \<^verbatim>\<open>double\<close>
  division, which has no value in \<^verbatim>\<open>unsigned long long\<close>, and what the cast delivers for it
  is stored as the quantum length. Nothing rejects the value, then or later: unless a later
  \<^verbatim>\<open>-f\<close> replaces it, the run is, action for action and in its outcome, the run of the same
  command line without the option, and ends with that interval, which is the one the
  measurement is started with.
\<close>

theorem zero_frequency_divides_by_zero:
  assumes "atoi a = Some 0" and "halt (after_options en d pre) = None"
    and "\<forall>opt\<in>set post. fst opt \<noteq> CHR ''f''"
  shows "double_of_int 0 = Fin 0
       \<and> frequency_quotient 0 = PInf
       \<and> fl_to_ull (frequency_quotient 0) = None
       \<and> after_options en d (pre @ [(CHR ''f'', Some a)]) =
           (after_options en d pre)\<lparr>interval := undefined_cast en PInf\<rparr>
       \<and> main en d (pre @ (CHR ''f'', Some a) # post) =
           (main en d (pre @ post))\<lparr>interval := undefined_cast en PInf\<rparr>
       \<and> interval (main en d (pre @ (CHR ''f'', Some a) # post)) = undefined_cast en PInf
       \<and> trace (main en d (pre @ (CHR ''f'', Some a) # post)) = trace (main en d (pre @ post))
       \<and> halt (main en d (pre @ (CHR ''f'', Some a) # post)) = halt (main en d (pre @ post))"
proof -
  let ?q = "after_options en d pre"
  let ?v = "undefined_cast en PInf"
  have h: "parse_options en [(CHR ''f'', Some a)] ?q = ?q\<lparr>interval := ?v\<rparr>"
    using assms(1,2) by (simp add: handle_option_f_zero)
  have 1: "after_options en d (pre @ [(CHR ''f'', Some a)]) = ?q\<lparr>interval := ?v\<rparr>"
    unfolding after_options_def parse_options_append
    using h by (simp only: after_options_def)
  have "after_options en d (pre @ (CHR ''f'', Some a) # post) =
      parse_options en post (after_options en d (pre @ [(CHR ''f'', Some a)]))"
    using parse_options_append [of en "pre @ [(CHR ''f'', Some a)]" post "init d"]
    by (simp add: after_options_def)
  also have "\<dots> = (parse_options en post ?q)\<lparr>interval := ?v\<rparr>"
    unfolding 1 using assms(3) by (rule parse_options_interval)
  also have "parse_options en post ?q = after_options en d (pre @ post)"
    by (simp add: after_options_def parse_options_append)
  finally have 2: "main en d (pre @ (CHR ''f'', Some a) # post) =
      (main en d (pre @ post))\<lparr>interval := ?v\<rparr>"
    by (rule main_interval)
  show ?thesis
    using 1 by (simp add: 2 double_of_int_0 frequency_quotient_0)
qed

text \<open>
  The strings \<^verbatim>\<open>"0"\<close> and \<^verbatim>\<open>"fast"\<close> are both read as 0. With \<^verbatim>\<open>-n 2 -f 0 -w\<close> the run reaches
  the measurement core with the interval that the cast delivered.
\<close>

theorem zero_frequency_divides_by_zero_witness:
  "atoi ''0'' = Some 0
   \<and> atoi ''fast'' = Some 0
   \<and> halt (after_options env0 startup0 [(CHR ''n'', Some ''2'')]) = None
   \<and> frequency_quotient 0 = PInf
   \<and> main env0 startup0 ([(CHR ''n'', Some ''2'')] @ (CHR ''f'', Some ''0'') # [(CHR ''w'', None)]) =
       (main env0 startup0 ([(CHR ''n'', Some ''2'')] @ [(CHR ''w'', None)]))
         \<lparr>interval := undefined_cast env0 PInf\<rparr>
   \<and> main env0 startup0 ([(CHR ''n'', Some ''2'')] @ (CHR ''f'', Some ''fast'') # []) =
       (main env0 startup0 ([(CHR ''n'', Some ''2'')] @ []))\<lparr>interval := undefined_cast env0 PInf\<rparr>
   \<and> interval (main env0 startup0
         ([(CHR ''n'', Some ''2'')] @ (CHR ''f'', Some ''fast'') # [])) = 0
   \<and> Ftq_core 0 \<in> set (trace (main env0 startup0
         ([(CHR ''n'', Some ''2'')] @ (CHR ''f'', Some ''fast'') # [])))"
proof -
  have a: "atoi ''0'' = Some 0" and b: "atoi ''fast'' = Some 0"
    by (simp_all add: run_eval)
  have h: "halt (after_options env0 startup0 [(CHR ''n'', Some ''2'')]) = None"
    by (simp add: run_eval)
  have w: "\<forall>opt\<in>set [(CHR ''w'', None :: string option)]. fst opt \<noteq> CHR ''f''"
    by simp
  have e: "\<forall>opt\<in>set ([] :: (char \<times> string option) list). fst opt \<noteq> CHR ''f''"
    by simp
  have u: "undefined_cast env0 PInf = 0"
    by (simp add: env0_def)
  have c: "Ftq_core 0 \<in> set (trace (main env0 startup0 [(CHR ''n'', Some ''2'')]))"
    by (rule launched_in_main) (simp add: run_inline)
  show ?thesis
    using zero_frequency_divides_by_zero [OF a h w] zero_frequency_divides_by_zero [OF b h e]
      a b h u c by simp
qed

section \<open>The allocation of the sample buffer\<close>



text \<open>
  C2 (amended). With \<^verbatim>\<open>stdout\<close> output and more than one thread the run ends in a fatal
  error before the calibration, which is never called, and performs no action of the launch
  (no thread is created, the measurement core is not called), but the check comes after the
  allocation: when the buffer can be allocated the trace ends with its \<^verbatim>\<open>memset\<close> followed by
  the error message, after the \<^verbatim>\<open>mmap\<close>, and the outcome is \<^verbatim>\<open>exit(EXIT_FAILURE)\<close>; when it
  cannot, the run has already ended on \<^verbatim>\<open>assert(samples)\<close>.
\<close>

theorem stdout_with_threads_rejected:
  assumes "halt (after_options en d opts) = None"
    and "use_stdout (after_options en d opts) = 1"
    and "1 < numthreads (after_options en d opts)"
  shows "(mmap_ok en \<or> malloc_ok en \<longrightarrow>
            halt (main en d opts) = Some Exit_failure
          \<and> (\<exists>pre. trace (main en d opts) =
                 pre @ [Memset_samples (samples_size (main en d opts)), Err_stdout]
               \<and> Mmap (samples_size (main en d opts)) \<in> set pre))
       \<and> (\<not> mmap_ok en \<and> \<not> malloc_ok en \<longrightarrow>
            halt (main en d opts) = Some (Assert_abort Samples_allocated))
       \<and> set (trace (main en d opts)) \<subseteq> during Prepare
       \<and> Compute_ticksperns \<notin> set (trace (main en d opts))"
proof -
  let ?S = "sanity_check (after_options en d opts)"
  let ?A = "allocate en ?S"
  let ?sz = "alloc_size ?S"
  have sz: "samples_size (main en d opts) = ?sz"
    using assms(1) by (rule samples_size_main)
  have pre: "set (trace ?S) \<subseteq> during Prepare"
    using assms(1) by (rule trace_sanity_check_prepare)
  show ?thesis
  proof (cases "mmap_ok en \<or> malloc_ok en")
    case True
    have hA: "halt ?A = None"
      using allocate_ok(1) [OF True, of ?S] assms(1) by simp
    obtain mid where mid: "trace ?A = trace ?S @ Mmap ?sz # mid @ [Memset_samples ?sz]"
        "set mid \<subseteq> during Prepare"
      using allocate_ok(2) [OF True, of ?S] by blast
    have c: "stdout_check ?A = stop Exit_failure (emit Err_stdout ?A)"
      using assms(2,3) by (simp add: stdout_check_def)
    have b: "before_launch en d opts = stop Exit_failure (emit Err_stdout ?A)"
      using assms(1) hA c by (simp add: before_launch_unfold)
    have m: "main en d opts = stop Exit_failure (emit Err_stdout ?A)"
      using main_halted_early [of en d opts Exit_failure] b by simp
    have t: "trace (main en d opts) = (trace ?S @ Mmap ?sz # mid) @ [Memset_samples ?sz, Err_stdout]"
      by (simp add: m mid(1))
    have "set (trace (main en d opts)) \<subseteq> during Prepare"
      unfolding t using pre mid(2) by (simp add: during_def)
    moreover have "halt (main en d opts) = Some Exit_failure"
      by (simp add: m)
    moreover have "Mmap ?sz \<in> set (trace ?S @ Mmap ?sz # mid)"
      by simp
    moreover have "Compute_ticksperns \<notin> set (trace (main en d opts))"
      using assms(1) by (rule halted_before_calibration) (simp add: b)
    ultimately show ?thesis
      using True t unfolding sz by blast
  next
    case False
    then have f: "\<not> mmap_ok en" "\<not> malloc_ok en" by simp_all
    have m: "main en d opts = ?A"
      using assms(1) allocate_fail(1) [OF f] by (rule before_launch_alloc_failed)
    have b: "before_launch en d opts = ?A"
      using assms(1) allocate_fail(1) [OF f, of ?S] by (simp add: before_launch_unfold)
    have n: "Compute_ticksperns \<notin> set (trace (main en d opts))"
      using assms(1) by (rule halted_before_calibration) (simp add: b allocate_fail(1) [OF f])
    have "set (trace ?A) \<subseteq> during Prepare"
      using pre by (simp add: allocate_fail(2) [OF f] during_def)
    then show ?thesis
      using f allocate_fail(1) [OF f, of ?S] n by (simp add: m)
  qed
qed

theorem stdout_with_threads_rejected_witness:
  "halt (after_options env0 startup0
      [(CHR ''s'', None), (CHR ''t'', Some ''2''), (CHR ''n'', Some ''2'')]) = None
   \<and> use_stdout (after_options env0 startup0
      [(CHR ''s'', None), (CHR ''t'', Some ''2''), (CHR ''n'', Some ''2'')]) = 1
   \<and> numthreads (after_options env0 startup0
      [(CHR ''s'', None), (CHR ''t'', Some ''2''), (CHR ''n'', Some ''2'')]) = 2
   \<and> mmap_ok env0
   \<and> halt (main env0 startup0
      [(CHR ''s'', None), (CHR ''t'', Some ''2''), (CHR ''n'', Some ''2'')]) = Some Exit_failure
   \<and> (\<exists>pre. trace (main env0 startup0
          [(CHR ''s'', None), (CHR ''t'', Some ''2''), (CHR ''n'', Some ''2'')]) =
          pre @ [Memset_samples (samples_size (main env0 startup0
             [(CHR ''s'', None), (CHR ''t'', Some ''2''), (CHR ''n'', Some ''2'')])), Err_stdout]
        \<and> Mmap (samples_size (main env0 startup0
             [(CHR ''s'', None), (CHR ''t'', Some ''2''), (CHR ''n'', Some ''2'')])) \<in> set pre)
   \<and> set (trace (main env0 startup0
        [(CHR ''s'', None), (CHR ''t'', Some ''2''), (CHR ''n'', Some ''2'')])) \<subseteq> during Prepare
   \<and> Compute_ticksperns \<notin> set (trace (main env0 startup0
        [(CHR ''s'', None), (CHR ''t'', Some ''2''), (CHR ''n'', Some ''2'')]))"
proof -
  let ?opts = "[(CHR ''s'', None), (CHR ''t'', Some ''2''), (CHR ''n'', Some ''2'')]"
  have h: "halt (after_options env0 startup0 ?opts) = None"
    and u: "use_stdout (after_options env0 startup0 ?opts) = 1"
    and n: "numthreads (after_options env0 startup0 ?opts) = 2"
    by (simp_all add: run_eval)
  have n1: "1 < numthreads (after_options env0 startup0 ?opts)"
    by (simp add: n)
  have m: "mmap_ok env0"
    by (simp add: env0_def)
  show ?thesis
    using stdout_with_threads_rejected [OF h u n1] h u n m by simp
qed

text \<open>
  The claim as stated, rejection before any allocation, fails for \<^verbatim>\<open>-s -t 2 -n 2\<close>: the
  buffer of 64 bytes is mapped and cleared before the error.
\<close>

theorem stdout_with_threads_rejected_counterexample:
  "halt (main env0 startup0
     [(CHR ''s'', None), (CHR ''t'', Some ''2''), (CHR ''n'', Some ''2'')]) = Some Exit_failure
   \<and> trace (main env0 startup0
     [(CHR ''s'', None), (CHR ''t'', Some ''2''), (CHR ''n'', Some ''2'')]) =
     [Mmap 64, Memset_samples 64, Err_stdout]"
  using main_halted_early [OF run_rejected(1)] by (simp add: run_rejected)

section \<open>The calibration\<close>




section \<open>The launch\<close>

text \<open>
  C3 (amended). What selects the inline path is the absence of the option \<^verbatim>\<open>-t\<close>, not the
  thread count. Without \<^verbatim>\<open>-t\<close> the count is 1 and the launch, when the run reaches it, is
  exactly: \<^verbatim>\<open>hounds = 1\<close>, the two start readings, the inline call \<^verbatim>\<open>ftq_core(0)\<close>, the two end
  readings; no \<^verbatim>\<open>threadinit\<close>, \<^verbatim>\<open>pthread_create\<close> or \<^verbatim>\<open>pthread_join\<close>.
\<close>

theorem inline_without_thread_option:
  assumes "\<forall>opt\<in>set opts. fst opt \<noteq> CHR ''t''"
  shows "numthreads (main en d opts) = 1
       \<and> use_threads (main en d opts) = 0
       \<and> launch_part (trace (main en d opts)) =
           (if halt (before_launch en d opts) = None
            then [Write_hounds 1, Read_start, Read_cyclestart, Ftq_core 0, Read_cycleend, Read_end]
            else [])"
proof -
  let ?B = "before_launch en d opts"
  have p: "numthreads (after_options en d opts) = 1" "use_threads (after_options en d opts) = 0"
    using parse_options_threads [OF assms, of en "init d"]
    by (simp_all add: after_options_def init_def)
  have u: "use_threads ?B = 0"
    by (simp add: use_threads_before_launch p)
  have n: "numthreads ?B = 1"
    by (simp add: numthreads_before_launch p)
  have "launch_part (trace (main en d opts)) =
      (if halt ?B = None
       then [Write_hounds 1, Read_start, Read_cyclestart, Ftq_core 0, Read_cycleend, Read_end]
       else [])"
  proof (cases "halt ?B")
    case None
    have "launched en d opts = sequential en ?B"
      using None u by (simp add: launched_cases)
    then have "trace (launched en d opts) = trace ?B @
        [Write_hounds 1, Read_start, Read_cyclestart, Ftq_core 0, Read_cycleend, Read_end]"
      by (simp add: sequential_run)
    then have "launch_part (trace (main en d opts)) =
        [Write_hounds 1, Read_start, Read_cyclestart, Ftq_core 0, Read_cycleend, Read_end]"
      by (rule launch_part_main) (simp add: during_def)
    with None show ?thesis by simp
  next
    case (Some oc)
    then have "trace (launched en d opts) = trace ?B @ []"
      by (simp add: launched_cases)
    then have "launch_part (trace (main en d opts)) = []"
      by (rule launch_part_main) simp
    with Some show ?thesis by simp
  qed
  then show ?thesis
    by (simp add: flags_main u n)
qed

theorem inline_without_thread_option_witness:
  "numthreads (main env0 startup0 [(CHR ''n'', Some ''2'')]) = 1
   \<and> use_threads (main env0 startup0 [(CHR ''n'', Some ''2'')]) = 0
   \<and> halt (before_launch env0 startup0 [(CHR ''n'', Some ''2'')]) = None
   \<and> launch_part (trace (main env0 startup0 [(CHR ''n'', Some ''2'')])) =
       [Write_hounds 1, Read_start, Read_cyclestart, Ftq_core 0, Read_cycleend, Read_end]"
proof -
  have o: "\<forall>opt\<in>set [(CHR ''n'', Some ''2'')]. fst opt \<noteq> CHR ''t''"
    by simp
  have b: "halt (before_launch env0 startup0 [(CHR ''n'', Some ''2'')]) = None"
    by (simp add: run_eval)
  show ?thesis
    using inline_without_thread_option [OF o, of env0 startup0] b by simp
qed

text \<open>
  The claim as stated fails for \<^verbatim>\<open>-t 1\<close>: the count is 1 and a thread is created and
  joined.
\<close>

theorem inline_without_thread_option_counterexample:
  "numthreads (main env0 startup0 [(CHR ''t'', Some ''1''), (CHR ''n'', Some ''2'')]) = 1
   \<and> launch_part (trace (main env0 startup0 [(CHR ''t'', Some ''1''), (CHR ''n'', Some ''2'')])) =
       [Threadinit 1, Malloc_threads, Memset_threads, Read_start, Read_cyclestart,
        Pthread_create 0, Write_hounds 1, Pthread_join 0, Read_cycleend, Read_end]"
  by (simp add: flags_main run_one_thread launch_part_launched) (simp add: launch_part_def)

text \<open>
  C4 (amended). In every run that records the end time stamp, the actions of the launch are
  exactly the following. With \<^verbatim>\<open>-t\<close>: \<^verbatim>\<open>threadinit\<close>, the allocation of the thread array, the
  start time stamp and the start cycle count, the creation of all threads, \<^verbatim>\<open>hounds = 1\<close>,
  the join of all threads, the end cycle count and the end time stamp. Without \<^verbatim>\<open>-t\<close>:
  \<^verbatim>\<open>hounds = 1\<close>, the start time stamp and cycle count, \<^verbatim>\<open>ftq_core(0)\<close>, the end cycle count
  and time stamp. So the end is recorded after all instances have finished, in both paths;
  the start is recorded before the threads are created in the first and after the release
  in the second.
\<close>

theorem start_and_end_readings:
  assumes "Read_end \<in> set (trace (main en d opts))"
  shows "launch_part (trace (main en d opts)) =
           (if use_threads (main en d opts) = 1
            then [Threadinit (numthreads (main en d opts)), Malloc_threads, Memset_threads,
                  Read_start, Read_cyclestart]
                 @ map Pthread_create [0..<nat (numthreads (main en d opts))]
                 @ [Write_hounds 1]
                 @ map Pthread_join [0..<nat (numthreads (main en d opts))]
                 @ [Read_cycleend, Read_end]
            else [Write_hounds 1, Read_start, Read_cyclestart, Ftq_core 0,
                  Read_cycleend, Read_end])"
proof -
  let ?B = "before_launch en d opts"
  let ?nt = "numthreads ?B"
  obtain r where r: "trace (main en d opts) = trace (launched en d opts) @ r"
      "\<forall>e. phase_of e = Launch \<longrightarrow> e \<notin> set r"
    using main_trace_launched by blast
  have e: "Read_end \<in> set (trace (launched en d opts))"
    using assms r(2) by (simp add: r(1))
  have nb: "Read_end \<notin> set (trace ?B)"
    by (rule before_launch_no_launch_event) simp
  have rel: "releases en d opts"
  proof (rule ccontr)
    assume "\<not> releases en d opts"
    then obtain l where "trace (launched en d opts) = trace ?B @ l" "set l \<subseteq> before_release"
      using launch_not_released(1) by blast
    with e nb show False by (auto simp: before_release_def)
  qed
  obtain a b where "release_shape en d opts a b"
    using launch_released(1) [OF rel] by blast
  then have ab: "trace (launched en d opts) = trace ?B @ a @ Write_hounds 1 # b"
      "set a \<subseteq> during Launch" "set b \<subseteq> during Launch"
      "use_threads ?B = 1 \<longrightarrow> a = launch_head ?nt @ map Pthread_create [0..<nat ?nt]"
      "halt (launched en d opts) = None \<longrightarrow>
         (if use_threads ?B = 1
          then b = map Pthread_join [0..<nat ?nt] @ [Read_cycleend, Read_end]
          else a = [] \<and> b = [Read_start, Read_cyclestart, Ftq_core 0, Read_cycleend, Read_end])"
      "halt (launched en d opts) \<noteq> None \<longrightarrow> Read_end \<notin> set b"
    by (simp_all add: release_shape_def)
  have B: "halt ?B = None"
    using rel by (simp add: releases_def)
  have h: "halt (launched en d opts) = None"
  proof (cases "use_threads ?B = 1")
    case True
    with ab(4) have "Read_end \<notin> set a"
      using launch_head_events(2) [of ?nt] by auto
    with e nb ab(1) have "Read_end \<in> set b" by simp
    with ab(6) show ?thesis by blast
  next
    case False
    with B show ?thesis by (rule sequential_launched)
  qed
  have "set (a @ Write_hounds 1 # b) \<subseteq> during Launch"
    using ab(2,3) by (simp add: during_def)
  with ab(1) have "launch_part (trace (main en d opts)) = a @ Write_hounds 1 # b"
    by (intro launch_part_main) simp_all
  then show ?thesis
    using h ab(4,5) by (auto simp: flags_main launch_head_def)
qed

theorem start_and_end_readings_witness:
  "Read_end \<in> set (trace (main env0 startup0 [(CHR ''t'', Some ''2''), (CHR ''n'', Some ''2'')]))
   \<and> use_threads (main env0 startup0 [(CHR ''t'', Some ''2''), (CHR ''n'', Some ''2'')]) = 1
   \<and> numthreads (main env0 startup0 [(CHR ''t'', Some ''2''), (CHR ''n'', Some ''2'')]) = 2
   \<and> launch_part (trace (main env0 startup0 [(CHR ''t'', Some ''2''), (CHR ''n'', Some ''2'')])) =
       [Threadinit 2, Malloc_threads, Memset_threads, Read_start, Read_cyclestart,
        Pthread_create 0, Pthread_create 1, Write_hounds 1, Pthread_join 0, Pthread_join 1,
        Read_cycleend, Read_end]"
proof -
  let ?opts = "[(CHR ''t'', Some ''2''), (CHR ''n'', Some ''2'')]"
  have m: "Read_end \<in> set (trace (main env0 startup0 ?opts))"
    by (rule launched_in_main) (simp add: run_two_threads)
  have u: "use_threads (main env0 startup0 ?opts) = 1"
    and n: "numthreads (main env0 startup0 ?opts) = 2"
    by (simp_all add: flags_main) (simp_all add: run_eval)
  show ?thesis
    using start_and_end_readings [OF m] m u n by (simp add: upt_rec)
qed

text \<open>
  The claim as stated, the start recorded immediately before the release in both paths,
  fails in both: inline, the release comes first; with two threads, their creation lies
  between the start readings and the release.
\<close>

theorem start_and_end_readings_counterexample:
  "launch_part (trace (main env0 startup0 [(CHR ''n'', Some ''2'')])) =
     [Write_hounds 1, Read_start, Read_cyclestart, Ftq_core 0, Read_cycleend, Read_end]
   \<and> launch_part (trace (main env0 startup0 [(CHR ''t'', Some ''2''), (CHR ''n'', Some ''2'')])) =
     [Threadinit 2, Malloc_threads, Memset_threads, Read_start, Read_cyclestart,
      Pthread_create 0, Pthread_create 1, Write_hounds 1, Pthread_join 0, Pthread_join 1,
      Read_cycleend, Read_end]"
  by (simp add: launch_part_launched run_inline run_two_threads) (simp add: launch_part_def)

text \<open>
  C5 (amended). \<^verbatim>\<open>main\<close> assigns to \<^verbatim>\<open>hounds\<close> at most once in a run and only the value 1, so the
  variable keeps its start-up value until then and is never reset. The assignment happens
  exactly in the runs that reach it: the preparation does not end the run and, with \<^verbatim>\<open>-t\<close>,
  \<^verbatim>\<open>threadinit\<close>, the allocation of the thread array and every \<^verbatim>\<open>pthread_create\<close> succeed. With
  \<^verbatim>\<open>-t\<close>, the assignment comes directly after the creation of the last thread: all threads are
  created before it and none after it, and no thread is joined before it. Without \<^verbatim>\<open>-t\<close> it
  is the first action of the launch, directly before the start readings and the inline call
  of the measurement core. A run that ends with \<^verbatim>\<open>exit(EXIT_SUCCESS)\<close> or \<^verbatim>\<open>pthread_exit\<close> has
  made the assignment exactly once.
\<close>

theorem start_signal_written_at_most_once:
  "count_list (trace (main en d opts)) (Write_hounds 1) \<le> 1
   \<and> (\<forall>v. Write_hounds v \<in> set (trace (main en d opts)) \<longrightarrow> v = 1)
   \<and> hounds (main en d opts) =
       (if Write_hounds 1 \<in> set (trace (main en d opts)) then 1 else hounds0 d)
   \<and> (Write_hounds 1 \<in> set (trace (main en d opts)) \<longleftrightarrow> releases en d opts)
   \<and> (Write_hounds 1 \<in> set (trace (main en d opts)) \<and> use_threads (main en d opts) = 1 \<longrightarrow>
        (\<exists>pre post. trace (main en d opts) =
             pre @ map Pthread_create [0..<nat (numthreads (main en d opts))]
                 @ Write_hounds 1 # post
           \<and> (\<forall>i. Pthread_create i \<notin> set pre \<and> Pthread_create i \<notin> set post)
           \<and> (\<forall>i. Pthread_join i \<notin> set pre)
           \<and> (\<forall>c. Ftq_core c \<notin> set pre)))
   \<and> (Write_hounds 1 \<in> set (trace (main en d opts)) \<and> use_threads (main en d opts) \<noteq> 1 \<longrightarrow>
        (\<exists>pre post. trace (main en d opts) =
             pre @ [Write_hounds 1, Read_start, Read_cyclestart, Ftq_core 0,
                    Read_cycleend, Read_end] @ post
           \<and> set pre \<inter> during Launch = {} \<and> set post \<inter> during Launch = {}))
   \<and> (halt (main en d opts) = Some Exit_success \<or> halt (main en d opts) = Some Pthread_exit \<longrightarrow>
        count_list (trace (main en d opts)) (Write_hounds 1) = 1)"
proof -
  let ?B = "before_launch en d opts"
  let ?nt = "numthreads ?B"
  let ?t = "trace (main en d opts)"
  obtain r where r: "?t = trace (launched en d opts) @ r"
      "\<forall>e. phase_of e = Launch \<longrightarrow> e \<notin> set r"
    using main_trace_launched by blast
  have Bw: "Write_hounds v \<notin> set (trace ?B)" for v
    by (rule before_launch_no_launch_event) simp
  have Bc: "Pthread_create i \<notin> set (trace ?B)" for i
    by (rule before_launch_no_launch_event) simp
  have rw: "Write_hounds v \<notin> set r" for v
    using r(2) by simp
  have rc: "Pthread_create i \<notin> set r" for i
    using r(2) by simp
  have Bj: "Pthread_join i \<notin> set (trace ?B)" for i
    by (rule before_launch_no_launch_event) simp
  have Bf: "Ftq_core c \<notin> set (trace ?B)" for c
    by (rule before_launch_no_launch_event) simp
  have Bl: "set (trace ?B) \<inter> during Launch = {}"
    using before_launch_no_launch_event [of _ en d opts] by (auto simp: during_def)
  have rl: "set r \<inter> during Launch = {}"
    using r(2) by (auto simp: during_def)
  show ?thesis
  proof (cases "releases en d opts")
    case False
    obtain l where l: "trace (launched en d opts) = trace ?B @ l" "set l \<subseteq> before_release"
      using launch_not_released(1) [OF False] by blast
    have lw: "Write_hounds v \<notin> set l" for v
      using l(2) by (auto simp: before_release_def)
    have none: "Write_hounds v \<notin> set ?t" for v
      using Bw [of v] rw [of v] lw [of v] by (simp add: r(1) l(1))
    have k: "hounds (main en d opts) = hounds0 d"
      using launch_not_released(2) [OF False] by (simp add: hounds_main)
    have c: "count_list ?t (Write_hounds 1) = 0"
      using none [of 1] by (rule count_list_absent)
    have "\<not> (halt (main en d opts) = Some Exit_success \<or> halt (main en d opts) = Some Pthread_exit)"
      using main_completes_launched [of en d opts] launch_not_released(3) [OF False] by blast
    then show ?thesis
      using False none k c by simp
  next
    case True
    obtain a b where "release_shape en d opts a b"
      using launch_released(1) [OF True] by blast
    then have ab: "trace (launched en d opts) = trace ?B @ a @ Write_hounds 1 # b"
        "\<forall>v. Write_hounds v \<notin> set a \<and> Write_hounds v \<notin> set b"
        "\<forall>i. Pthread_create i \<notin> set b"
        "use_threads ?B = 1 \<longrightarrow> a = launch_head ?nt @ map Pthread_create [0..<nat ?nt]"
        "halt (launched en d opts) = None \<longrightarrow> use_threads ?B \<noteq> 1 \<longrightarrow>
           a = [] \<and> b = [Read_start, Read_cyclestart, Ftq_core 0, Read_cycleend, Read_end]"
      by (simp_all add: release_shape_def)
    have t: "?t = (trace ?B @ a) @ Write_hounds 1 # (b @ r)"
      by (simp add: r(1) ab(1))
    have pw: "Write_hounds v \<notin> set (trace ?B @ a)" for v
      using Bw [of v] ab(2) by simp
    have qw: "Write_hounds v \<notin> set (b @ r)" for v
      using rw [of v] ab(2) by simp
    have "count_list ?t (Write_hounds 1) = 1"
      unfolding t using pw [of 1] qw [of 1] by (simp add: count_list_absent)
    moreover have "Write_hounds 1 \<in> set ?t"
      by (simp add: t)
    moreover have "\<forall>v. Write_hounds v \<in> set ?t \<longrightarrow> v = 1"
      unfolding t using pw qw by auto
    moreover have "hounds (main en d opts) = 1"
      using launch_released(2) [OF True] by (simp add: hounds_main)
    moreover have "use_threads (main en d opts) = 1 \<longrightarrow>
        (\<exists>pre post. ?t = pre @ map Pthread_create [0..<nat (numthreads (main en d opts))]
                 @ Write_hounds 1 # post
           \<and> (\<forall>i. Pthread_create i \<notin> set pre \<and> Pthread_create i \<notin> set post)
           \<and> (\<forall>i. Pthread_join i \<notin> set pre)
           \<and> (\<forall>c. Ftq_core c \<notin> set pre))"
    proof
      assume "use_threads (main en d opts) = 1"
      then have a: "a = launch_head ?nt @ map Pthread_create [0..<nat ?nt]"
        using ab(4) by (simp add: flags_main)
      have "?t = (trace ?B @ launch_head ?nt) @ map Pthread_create [0..<nat (numthreads (main en d opts))]
          @ Write_hounds 1 # (b @ r)"
        by (simp add: t a flags_main)
      moreover have "\<forall>i. Pthread_create i \<notin> set (trace ?B @ launch_head ?nt)
          \<and> Pthread_create i \<notin> set (b @ r)"
        using Bc rc ab(3) launch_head_events(4) by simp
      moreover have "\<forall>i. Pthread_join i \<notin> set (trace ?B @ launch_head ?nt)"
        using Bj by (simp add: launch_head_def)
      moreover have "\<forall>c. Ftq_core c \<notin> set (trace ?B @ launch_head ?nt)"
        using Bf by (simp add: launch_head_def)
      ultimately show "\<exists>pre post. ?t = pre @ map Pthread_create [0..<nat (numthreads (main en d opts))]
                 @ Write_hounds 1 # post
           \<and> (\<forall>i. Pthread_create i \<notin> set pre \<and> Pthread_create i \<notin> set post)
           \<and> (\<forall>i. Pthread_join i \<notin> set pre)
           \<and> (\<forall>c. Ftq_core c \<notin> set pre)"
        by blast
    qed
    moreover have "use_threads (main en d opts) \<noteq> 1 \<longrightarrow>
        (\<exists>pre post. ?t = pre @ [Write_hounds 1, Read_start, Read_cyclestart, Ftq_core 0,
                    Read_cycleend, Read_end] @ post
           \<and> set pre \<inter> during Launch = {} \<and> set post \<inter> during Launch = {})"
    proof
      assume "use_threads (main en d opts) \<noteq> 1"
      then have u: "use_threads ?B \<noteq> 1"
        by (simp add: flags_main)
      have B: "halt ?B = None"
        using True by (simp add: releases_def)
      have "halt (launched en d opts) = None"
        using B u by (rule sequential_launched)
      with ab(5) u have "a = []"
          "b = [Read_start, Read_cyclestart, Ftq_core 0, Read_cycleend, Read_end]"
        by simp_all
      then have "?t = trace ?B @ [Write_hounds 1, Read_start, Read_cyclestart, Ftq_core 0,
          Read_cycleend, Read_end] @ r"
        by (simp add: t)
      with Bl rl show "\<exists>pre post. ?t = pre @ [Write_hounds 1, Read_start, Read_cyclestart,
            Ftq_core 0, Read_cycleend, Read_end] @ post
          \<and> set pre \<inter> during Launch = {} \<and> set post \<inter> during Launch = {}"
        by blast
    qed
    ultimately show ?thesis
      using True by simp
  qed
qed

theorem start_signal_written_at_most_once_witness:
  "releases env0 startup0 [(CHR ''t'', Some ''2''), (CHR ''n'', Some ''2'')]
   \<and> use_threads (main env0 startup0 [(CHR ''t'', Some ''2''), (CHR ''n'', Some ''2'')]) = 1
   \<and> Write_hounds 1 \<in> set (trace (main env0 startup0
        [(CHR ''t'', Some ''2''), (CHR ''n'', Some ''2'')]))
   \<and> count_list (trace (main env0 startup0
        [(CHR ''t'', Some ''2''), (CHR ''n'', Some ''2'')])) (Write_hounds 1) \<le> 1
   \<and> hounds (main env0 startup0 [(CHR ''t'', Some ''2''), (CHR ''n'', Some ''2'')]) = 1
   \<and> (\<exists>pre post. trace (main env0 startup0 [(CHR ''t'', Some ''2''), (CHR ''n'', Some ''2'')]) =
          pre @ map Pthread_create [0..<nat (numthreads (main env0 startup0
                  [(CHR ''t'', Some ''2''), (CHR ''n'', Some ''2'')]))]
              @ Write_hounds 1 # post
        \<and> (\<forall>i. Pthread_create i \<notin> set pre \<and> Pthread_create i \<notin> set post)
        \<and> (\<forall>i. Pthread_join i \<notin> set pre)
        \<and> (\<forall>c. Ftq_core c \<notin> set pre))
   \<and> releases env0 startup0 [(CHR ''n'', Some ''2'')]
   \<and> use_threads (main env0 startup0 [(CHR ''n'', Some ''2'')]) = 0
   \<and> Write_hounds 1 \<in> set (trace (main env0 startup0 [(CHR ''n'', Some ''2'')]))
   \<and> (\<exists>pre post. trace (main env0 startup0 [(CHR ''n'', Some ''2'')]) =
          pre @ [Write_hounds 1, Read_start, Read_cyclestart, Ftq_core 0,
                 Read_cycleend, Read_end] @ post
        \<and> set pre \<inter> during Launch = {} \<and> set post \<inter> during Launch = {})"
proof -
  let ?opts = "[(CHR ''t'', Some ''2''), (CHR ''n'', Some ''2'')]"
  let ?inl = "[(CHR ''n'', Some ''2'')]"
  have r: "releases env0 startup0 ?opts"
    by (simp add: releases_def creates_ok_def) (simp add: run_eval)
  have u: "use_threads (main env0 startup0 ?opts) = 1"
    by (simp add: flags_main) (simp add: run_eval)
  have r': "releases env0 startup0 ?inl"
    by (simp add: releases_def creates_ok_def) (simp add: run_eval)
  have u': "use_threads (main env0 startup0 ?inl) = 0"
    by (simp add: flags_main) (simp add: run_eval)
  show ?thesis
    using start_signal_written_at_most_once [of env0 startup0 ?opts]
      start_signal_written_at_most_once [of env0 startup0 ?inl] r u r' u' by simp
qed

text \<open>
  The claim as stated, exactly one write in every run, fails for \<^verbatim>\<open>-h\<close>: the run ends in
  \<^verbatim>\<open>usage\<close> and \<^verbatim>\<open>hounds\<close> is never written. It also fails inside the launch: when the second
  \<^verbatim>\<open>pthread_create\<close> of \<^verbatim>\<open>-t 2 -n 2\<close> fails, the run exits with one thread created and waiting,
  and no write.
\<close>

theorem start_signal_written_at_most_once_counterexample:
  "halt (main env0 startup0 [(CHR ''h'', None)]) = Some Exit_failure
   \<and> trace (main env0 startup0 [(CHR ''h'', None)]) = [Usage]
   \<and> count_list (trace (main env0 startup0 [(CHR ''h'', None)])) (Write_hounds 1) = 0
   \<and> hounds (main env0 startup0 [(CHR ''h'', None)]) = 0
   \<and> halt (main env_create_fails startup0 [(CHR ''t'', Some ''2''), (CHR ''n'', Some ''2'')])
       = Some Exit_failure
   \<and> trace (main env_create_fails startup0 [(CHR ''t'', Some ''2''), (CHR ''n'', Some ''2'')]) =
       [Mmap 64, Memset_samples 64, Compute_ticksperns, Threadinit 2, Malloc_threads,
        Memset_threads, Read_start, Read_cyclestart, Pthread_create 0, Pthread_create 1,
        Err_create]
   \<and> count_list (trace (main env_create_fails startup0
         [(CHR ''t'', Some ''2''), (CHR ''n'', Some ''2'')])) (Write_hounds 1) = 0"
  using main_options_halted [OF run_help(1)] main_halted_launch [OF run_create_fails(1)]
  by (simp add: run_help run_create_fails)

section \<open>The report\<close>

text \<open>
  C1 (amended). Every sample line of the report belongs to a thread \<open>j\<close> and a sample
  \<open>i < numsamples\<close>; with \<^verbatim>\<open>stdout\<close> output \<open>j\<close> is 0, otherwise the line is in the file of
  thread \<open>j < numthreads\<close>. Its second number is the count \<^verbatim>\<open>samples[2 (j n + i) + 1]\<close>. Its
  first number is the cast to \<^verbatim>\<open>ticks\<close> of \<^verbatim>\<open>nspercycle * (samples[2 (j n + i)] - base)\<close>,
  computed in \<^verbatim>\<open>float\<close>, where \<^verbatim>\<open>base = samples[2 j n]\<close> is the first time stamp of the same
  thread's slice and \<^verbatim>\<open>nspercycle\<close> is the ratio \<^verbatim>\<open>(end - start) / (cycleend - cyclestart)\<close> of
  the two pairs of clock readings \<^verbatim>\<open>main\<close> takes around the measurement. The calibration
  factor \<^verbatim>\<open>ticksperns\<close> does not enter the line.
\<close>

theorem reported_sample_lines:
  assumes "Line dst e c \<in> set (trace (main en d opts))"
  shows "\<exists>j i. i < unat (numsamples (main en d opts))
           \<and> (if use_stdout (main en d opts) = 1 then dst = Stdout \<and> j = 0
               else dst = File j \<and> int j < numthreads (main en d opts))
           \<and> elapsed_ns (ns_per_cycle (nsec en 1 - nsec en 0) (getticks en 1 - getticks en 0))
                (measured en (2 * (j * unat (numsamples (main en d opts)) + i)))
                (measured en (2 * (j * unat (numsamples (main en d opts))))) = Some e
           \<and> c = measured en (2 * (j * unat (numsamples (main en d opts)) + i) + 1)"
proof -
  let ?n = "numsamples (main en d opts)"
  let ?nt = "numthreads (main en d opts)"
  let ?npc = "ns_per_cycle (nsec en 1 - nsec en 0) (getticks en 1 - getticks en 0)"
  have h: "halt (launched en d opts) = None"
    and l: "Line dst e c \<in> report_lines en ?npc ?n ?nt (use_stdout (main en d opts))"
    using line_in_report [OF assms] by simp_all
  have "halt (before_launch en d opts) = None"
    using h unfolding launched_def by (rule halt_guard_None)
  then have n: "unat ?n \<le> 2000000"
    by (rule numsamples_range)
  show ?thesis
  proof (cases "use_stdout (main en d opts) = 1")
    case True
    with l obtain i where i: "i < unat ?n"
        and li: "elapsed_ns ?npc (measured en (unat (stdout_index i))) (measured en 0) = Some e"
          "c = measured en (unat (stdout_index i + 1))" "dst = Stdout"
      by (auto simp: report_lines_def lines_of_def)
    show ?thesis
      using True i li by (intro exI [of _ 0] exI [of _ i]) (simp add: stdout_index_nat [OF n i])
  next
    case False
    with l obtain j i where j: "j < nat ?nt" and i: "i < unat ?n"
        and li: "elapsed_ns ?npc (measured en (unat (file_index ?n j i)))
                  (measured en (unat (file_base ?n j))) = Some e"
          "c = measured en (unat (file_index ?n j i + 1))" "dst = File j"
      by (auto simp: report_lines_def file_lines_def lines_of_def)
    have jb: "j < 2147483648"
      using j numthreads_range [of en d opts] by (simp add: INT_MAX_def)
    have "unat (file_index ?n j i) = 2 * (j * unat ?n + i)"
        "unat (file_index ?n j i + 1) = 2 * (j * unat ?n + i) + 1"
        "unat (file_base ?n j) = 2 * (j * unat ?n)"
      using jb n i by (simp_all add: file_index_nat file_base_nat)
    with li j i False show ?thesis
      by (intro exI [of _ j] exI [of _ i]) simp
  qed
qed

theorem reported_sample_lines_witness:
  "Line (File 0) 200 9 \<in> set (trace (main env0 startup0
       [(CHR ''T'', Some ''1''), (CHR ''n'', Some ''2'')]))
   \<and> (\<exists>j i. i < unat (numsamples (main env0 startup0
                  [(CHR ''T'', Some ''1''), (CHR ''n'', Some ''2'')]))
         \<and> (if use_stdout (main env0 startup0
                  [(CHR ''T'', Some ''1''), (CHR ''n'', Some ''2'')]) = 1
             then File 0 = Stdout \<and> j = 0
             else File 0 = File j
                  \<and> int j < numthreads (main env0 startup0
                      [(CHR ''T'', Some ''1''), (CHR ''n'', Some ''2'')]))
         \<and> elapsed_ns (ns_per_cycle (nsec env0 1 - nsec env0 0) (getticks env0 1 - getticks env0 0))
              (measured env0 (2 * (j * unat (numsamples (main env0 startup0
                  [(CHR ''T'', Some ''1''), (CHR ''n'', Some ''2'')])) + i)))
              (measured env0 (2 * (j * unat (numsamples (main env0 startup0
                  [(CHR ''T'', Some ''1''), (CHR ''n'', Some ''2'')]))))) = Some 200
         \<and> 9 = measured env0 (2 * (j * unat (numsamples (main env0 startup0
                  [(CHR ''T'', Some ''1''), (CHR ''n'', Some ''2'')])) + i) + 1))"
proof -
  have m: "Line (File 0) 200 9 \<in> set (trace (main env0 startup0
       [(CHR ''T'', Some ''1''), (CHR ''n'', Some ''2'')]))"
    by (simp add: run_report)
  show ?thesis
    using m reported_sample_lines [OF m] by (rule conjI)
qed

text \<open>
  The claim as stated fails for \<^verbatim>\<open>-T 1 -n 2\<close> when the run takes 2000 ns and 1000 ticks: with
  one tick per nanosecond the formula of the specification gives 100 ns for the second
  sample, 100 ticks after the first; the report prints 200.
\<close>

theorem reported_sample_lines_counterexample:
  "ticksperns (main env0 startup0 [(CHR ''T'', Some ''1''), (CHR ''n'', Some ''2'')]) = Fin 1
   \<and> measured env0 2 - measured env0 0 = 100
   \<and> measured env0 3 = 9
   \<and> spec_elapsed_ns
        (ticksperns (main env0 startup0 [(CHR ''T'', Some ''1''), (CHR ''n'', Some ''2'')]))
        (measured env0 2) (measured env0 0) = Some 100
   \<and> Line (File 0) 200 9 \<in> set (trace (main env0 startup0
        [(CHR ''T'', Some ''1''), (CHR ''n'', Some ''2'')]))
   \<and> Line (File 0) 100 9 \<notin> set (trace (main env0 startup0
        [(CHR ''T'', Some ''1''), (CHR ''n'', Some ''2'')]))"
proof -
  let ?opts = "[(CHR ''T'', Some ''1''), (CHR ''n'', Some ''2'')]"
  have t: "ticksperns (main env0 startup0 ?opts) = Fin 1"
    using calibration_unchanged [of env0 startup0 ?opts] run_explicit_one by simp
  have s: "measured env0 2 - measured env0 0 = 100" "measured env0 3 = 9"
      "measured env0 2 = 600" "measured env0 0 = 500"
    by (simp_all add: env0_def)
  have "spec_elapsed_ns (Fin 1) 600 500 = Some 100"
    by (simp add: spec_elapsed_ns_def trunc_def)
  then show ?thesis
    using t s by (simp add: run_report)
qed

end
